theory Spec2Isabelle
  imports Main "HOL-Library.AList"
begin

section \<open>Data model\<close>

text \<open>
  Modelled from the spec: \<^verbatim>\<open>models.py\<close> is not among the sources. The admin router
  reads \<^verbatim>\<open>X.id\<close> of every model, \<^verbatim>\<open>Auction.status\<close>, \<^verbatim>\<open>Flag.is_pair_complete\<close>,
  \<^verbatim>\<open>Flag.image_ipfs_hash\<close> and \<^verbatim>\<open>Flag.metadata_ipfs_hash\<close>; the remaining columns (the
  references between the entities, an auction's times, reserve price and recorded winner,
  a bid's amount and timestamp) follow section 3 of the specification. Python integers are
  unbounded, so every integer column is an \<^typ>\<open>int\<close>; a nullable column is an option.
\<close>

datatype AuctionStatus = PENDING | ACTIVE | CLOSING | SETTLED | CANCELLED

record country =
  country_id :: int

record region =
  region_id :: int
  region_country_id :: int

record municipality =
  municipality_id :: int
  municipality_region_id :: int

record flag =
  flag_id :: int
  flag_municipality_id :: int
  is_pair_complete :: bool
  image_ipfs_hash :: "string option"
  metadata_ipfs_hash :: "string option"

record user =
  user_id :: int

record user_connection =
  connection_id :: int
  follower_id :: int
  following_id :: int

record flag_interest =
  interest_id :: int
  interest_user_id :: int
  interest_flag_id :: int

record flag_ownership =
  ownership_id :: int
  ownership_user_id :: int
  ownership_flag_id :: int

record auction =
  auction_id :: int
  auction_flag_id :: int
  status :: AuctionStatus
  opening_time :: int
  closing_time :: int
  reserve_price :: int
  winner :: "int option"

record bid =
  bid_id :: int
  bid_auction_id :: int
  bidder_id :: int
  amount :: int
  timestamp :: int

text \<open>The database session: one list of rows per table.\<close>

record database =
  countries :: "country list"
  regions :: "region list"
  municipalities :: "municipality list"
  flags :: "flag list"
  users :: "user list"
  user_connections :: "user_connection list"
  flag_interests :: "flag_interest list"
  flag_ownerships :: "flag_ownership list"
  auctions :: "auction list"
  bids :: "bid list"

definition empty_database :: database where
  "empty_database =
     \<lparr>countries = [], regions = [], municipalities = [], flags = [], users = [],
      user_connections = [], flag_interests = [], flag_ownerships = [], auctions = [],
      bids = []\<rparr>"

section \<open>Admin router (src/routers/admin.py)\<close>

text \<open>
  \<^verbatim>\<open>config.py\<close> is not among the sources: the settings the router reads are a parameter.
  The admin credential is a string; the Pinata token may be unset.
\<close>

record settings =
  admin_api_key :: string
  pinata_jwt :: "string option"
  project_name :: string
  environment :: string

datatype HTTPException = HTTPException (status_code: nat) (detail: string)

definition HTTP_400_BAD_REQUEST :: nat where "HTTP_400_BAD_REQUEST = 400"
definition HTTP_403_FORBIDDEN :: nat where "HTTP_403_FORBIDDEN = 403"
definition HTTP_502_BAD_GATEWAY :: nat where "HTTP_502_BAD_GATEWAY = 502"
definition HTTP_500_INTERNAL_SERVER_ERROR :: nat where "HTTP_500_INTERNAL_SERVER_ERROR = 500"

text \<open>\<^verbatim>\<open>verify_admin\<close>: the header is optional (\<^verbatim>\<open>Header(None)\<close>); an absent header is
  \<^term>\<open>None\<close>, which differs from every string.\<close>

definition verify_admin :: "settings \<Rightarrow> string option \<Rightarrow> HTTPException + bool" where
  "verify_admin cfg x_admin_key =
     (if x_admin_key \<noteq> Some (admin_api_key cfg)
      then Inl (HTTPException HTTP_403_FORBIDDEN ''Invalid or missing admin API key'')
      else Inr True)"

record AdminStatsResponse =
  total_countries :: int
  total_regions :: int
  total_municipalities :: int
  total_flags :: int
  total_users :: int
  total_interests :: int
  total_ownerships :: int
  total_auctions :: int
  active_auctions :: int
  completed_pairs :: int

text \<open>\<^verbatim>\<open>db.query(func.count(X.id)).scalar()\<close> counts the rows of a table (the primary key
  is never null); \<^verbatim>\<open>.filter(c)\<close> keeps the rows that satisfy \<^verbatim>\<open>c\<close>.\<close>

definition count_rows :: "'a list \<Rightarrow> int" where
  "count_rows rows = int (length rows)"

definition get_admin_stats :: "database \<Rightarrow> AdminStatsResponse" where
  "get_admin_stats db =
     \<lparr>total_countries = count_rows (countries db),
      total_regions = count_rows (regions db),
      total_municipalities = count_rows (municipalities db),
      total_flags = count_rows (flags db),
      total_users = count_rows (users db),
      total_interests = count_rows (flag_interests db),
      total_ownerships = count_rows (flag_ownerships db),
      total_auctions = count_rows (auctions db),
      active_auctions = count_rows (filter (\<lambda>a. status a = ACTIVE) (auctions db)),
      completed_pairs = count_rows (filter (\<lambda>f. is_pair_complete f = True) (flags db))\<rparr>"

record ipfs_status_response =
  ipfs_total_flags :: int
  flags_with_image_hash :: int
  flags_with_metadata_hash :: int
  flags_pending_upload :: int

definition ipfs_status :: "database \<Rightarrow> ipfs_status_response" where
  "ipfs_status db =
     (let total = count_rows (flags db);
          flags_with_image = count_rows (filter (\<lambda>f. image_ipfs_hash f \<noteq> None) (flags db));
          flags_with_metadata =
            count_rows (filter (\<lambda>f. metadata_ipfs_hash f \<noteq> None) (flags db))
      in \<lparr>ipfs_total_flags = total,
          flags_with_image_hash = flags_with_image,
          flags_with_metadata_hash = flags_with_metadata,
          flags_pending_upload = total - flags_with_image\<rparr>)"

text \<open>
  \<^verbatim>\<open>seed_demo_data\<close>: \<^verbatim>\<open>seed_data.seed_database\<close> is not among the sources and is a
  parameter. The handler returns its response (or the HTTP error it raises) and the
  database it leaves.
\<close>

datatype response =
    StatsResponse AdminStatsResponse
  | MessageResponse string
  | IpfsStatusResponse ipfs_status_response

definition seed_demo_data ::
  "(database \<Rightarrow> database) \<Rightarrow> database \<Rightarrow> (HTTPException + response) \<times> database" where
  "seed_demo_data seed_database db =
     (let existing_countries = count_rows (countries db) in
      if existing_countries > 0
      then (Inl (HTTPException HTTP_400_BAD_REQUEST ''Database already has data. Cannot seed.''),
            db)
      else (Inr (MessageResponse ''Demo data seeded successfully''), seed_database db))"

text \<open>
  \<^verbatim>\<open>reset_database\<close>: ten bulk deletes, in the order of the source, then the commit.
  \<^verbatim>\<open>db.query(M).delete()\<close> removes every row of the table of \<^verbatim>\<open>M\<close>.
\<close>

datatype model =
    FlagInterest | FlagOwnership | Bid | Auction | UserConnection
  | User | Flag | Municipality | Region | Country

fun query_delete :: "model \<Rightarrow> database \<Rightarrow> database" where
  "query_delete FlagInterest db = db\<lparr>flag_interests := []\<rparr>"
| "query_delete FlagOwnership db = db\<lparr>flag_ownerships := []\<rparr>"
| "query_delete Bid db = db\<lparr>bids := []\<rparr>"
| "query_delete Auction db = db\<lparr>auctions := []\<rparr>"
| "query_delete UserConnection db = db\<lparr>user_connections := []\<rparr>"
| "query_delete User db = db\<lparr>users := []\<rparr>"
| "query_delete Flag db = db\<lparr>flags := []\<rparr>"
| "query_delete Municipality db = db\<lparr>municipalities := []\<rparr>"
| "query_delete Region db = db\<lparr>regions := []\<rparr>"
| "query_delete Country db = db\<lparr>countries := []\<rparr>"

definition reset_order :: "model list" where
  "reset_order =
     [FlagInterest, FlagOwnership, Bid, Auction, UserConnection,
      User, Flag, Municipality, Region, Country]"

definition reset_database :: "database \<Rightarrow> (HTTPException + response) \<times> database" where
  "reset_database db =
     (Inr (MessageResponse ''Database reset successfully''), fold query_delete reset_order db)"

text \<open>The deletes of a reset, each paired with the database it runs on.\<close>

fun delete_steps :: "model list \<Rightarrow> database \<Rightarrow> (model \<times> database) list" where
  "delete_steps [] db = []"
| "delete_steps (m # ms) db = (m, db) # delete_steps ms (query_delete m db)"

definition reset_steps :: "database \<Rightarrow> (model \<times> database) list" where
  "reset_steps db = delete_steps reset_order db"

text \<open>
  Modelled from the spec: the foreign keys are declared in \<^verbatim>\<open>models.py\<close>, which is not
  among the sources. \<open>references m m'\<close> says that a row of \<open>m\<close> holds a reference to a row
  of \<open>m'\<close>: region to country, municipality to region, flag to municipality, auction to
  flag and (its recorded winner) to user, bid to auction and user, ownership and interest
  to user and flag, user connection to user.
\<close>

definition foreign_keys :: "(model \<times> model) list" where
  "foreign_keys =
     [(Region, Country), (Municipality, Region), (Flag, Municipality),
      (Auction, Flag), (Auction, User), (Bid, Auction), (Bid, User),
      (FlagOwnership, User), (FlagOwnership, Flag),
      (FlagInterest, User), (FlagInterest, Flag), (UserConnection, User)]"

definition references :: "model \<Rightarrow> model \<Rightarrow> bool" where
  "references m m' = List.member foreign_keys (m, m')"

fun table_empty :: "model \<Rightarrow> database \<Rightarrow> bool" where
  "table_empty FlagInterest db = (flag_interests db = [])"
| "table_empty FlagOwnership db = (flag_ownerships db = [])"
| "table_empty Bid db = (bids db = [])"
| "table_empty Auction db = (auctions db = [])"
| "table_empty UserConnection db = (user_connections db = [])"
| "table_empty User db = (users db = [])"
| "table_empty Flag db = (flags db = [])"
| "table_empty Municipality db = (municipalities db = [])"
| "table_empty Region db = (regions db = [])"
| "table_empty Country db = (countries db = [])"

definition all_models :: "model list" where
  "all_models =
     [FlagInterest, FlagOwnership, Bid, Auction, UserConnection,
      User, Flag, Municipality, Region, Country]"

text \<open>A delete of \<open>m\<close> is safe on \<open>db\<close> when every table that references \<open>m\<close> is empty.\<close>

definition delete_safe :: "model \<Rightarrow> database \<Rightarrow> bool" where
  "delete_safe m db = list_all (\<lambda>m'. \<not> references m' m \<or> table_empty m' db) all_models"

text \<open>
  \<^verbatim>\<open>sync_ipfs_from_pinata\<close>. The reply of the Pinata API is an input: its status code, its
  text and the rows of its JSON body, each row with \<^verbatim>\<open>metadata.name\<close> and
  \<^verbatim>\<open>ipfs_pin_hash\<close> (either may be missing or null; every row carries a \<^verbatim>\<open>metadata\<close>
  object, as the Pinata API returns it). A name is a Python \<^verbatim>\<open>str\<close>, a sequence of Unicode
  code points; the hash is only compared and stored. The message interpolates the three
  counts in decimal.
\<close>

type_synonym py_str = "int list"

definition ustr :: "string \<Rightarrow> py_str" where
  "ustr s = map of_char s"

record pin =
  pin_name :: "py_str option"
  ipfs_pin_hash :: "string option"

record pinata_reply =
  reply_status_code :: nat
  reply_text :: string
  reply_rows :: "pin list"

text \<open>Without \<^verbatim>\<open>re.IGNORECASE\<close> the classes \<^verbatim>\<open>[A-Z]\<close> and \<^verbatim>\<open>[a-z]\<close> are the ASCII letters.\<close>

definition is_upper :: "int \<Rightarrow> bool" where
  "is_upper c = (65 \<le> c \<and> c \<le> 90)"

definition is_lower :: "int \<Rightarrow> bool" where
  "is_lower c = (97 \<le> c \<and> c \<le> 122)"

text \<open>
  On a \<^verbatim>\<open>str\<close> pattern \<^verbatim>\<open>\d\<close> matches every Unicode decimal digit (category Nd), and
  \<^verbatim>\<open>int\<close> converts each of them. The table is the one of Unicode 14.0 (Python 3.11): runs
  of consecutive code points, given by start and length, in which the digit values count
  0 to 9 repeatedly. The first run is ASCII \<^verbatim>\<open>0\<close> to \<^verbatim>\<open>9\<close>.
\<close>

definition decimal_digit_runs :: "(int \<times> int) list" where
  "decimal_digit_runs =
     [(48, 10), (1632, 10), (1776, 10), (1984, 10), (2406, 10), (2534, 10), (2662, 10),
      (2790, 10), (2918, 10), (3046, 10), (3174, 10), (3302, 10), (3430, 10), (3558, 10),
      (3664, 10), (3792, 10), (3872, 10), (4160, 10), (4240, 10), (6112, 10), (6160, 10),
      (6470, 10), (6608, 10), (6784, 10), (6800, 10), (6992, 10), (7088, 10), (7232, 10),
      (7248, 10), (42528, 10), (43216, 10), (43264, 10), (43472, 10), (43504, 10),
      (43600, 10), (44016, 10), (65296, 10), (66720, 10), (68912, 10), (69734, 10),
      (69872, 10), (69942, 10), (70096, 10), (70384, 10), (70736, 10), (70864, 10),
      (71248, 10), (71360, 10), (71472, 10), (71904, 10), (72016, 10), (72784, 10),
      (73040, 10), (73120, 10), (92768, 10), (92864, 10), (93008, 10), (120782, 50),
      (123200, 10), (123632, 10), (125264, 10), (130032, 10)]"

definition decimal_value :: "int \<Rightarrow> int option" where
  "decimal_value c =
     (case find (\<lambda>(start, len). start \<le> c \<and> c < start + len) decimal_digit_runs of
        None \<Rightarrow> None
      | Some (start, len) \<Rightarrow> Some ((c - start) mod 10))"

definition is_digit :: "int \<Rightarrow> bool" where
  "is_digit c = (decimal_value c \<noteq> None)"

text \<open>Python's \<^verbatim>\<open>$\<close> matches at the end of the string and also just before a newline that
  ends the string.\<close>

definition at_end :: "py_str \<Rightarrow> py_str \<Rightarrow> bool" where
  "at_end lit r = (r = lit \<or> r = lit @ [10])"

text \<open>
  \<^verbatim>\<open>re.match(r"^[A-Z]{3}_[a-z]+_(\d+)\.png$", name)\<close>, returning group 1. The classes
  \<^verbatim>\<open>[a-z]\<close> and \<^verbatim>\<open>\d\<close> exclude the character that follows them in the pattern, so the
  greedy run is the only way to match.
\<close>

definition match_image :: "py_str \<Rightarrow> py_str option" where
  "match_image name =
     (let cc = take 3 name; r1 = drop 3 name in
      if length cc = 3 \<and> list_all is_upper cc then
        (case r1 of
           [] \<Rightarrow> None
         | c1 # r2 \<Rightarrow>
             if c1 = of_char (CHR ''_'') then
               (let lows = takeWhile is_lower r2; r3 = dropWhile is_lower r2 in
                if lows \<noteq> [] then
                  (case r3 of
                     [] \<Rightarrow> None
                   | c2 # r4 \<Rightarrow>
                       if c2 = of_char (CHR ''_'') then
                         (let ds = takeWhile is_digit r4; r5 = dropWhile is_digit r4 in
                          if ds \<noteq> [] \<and> at_end (ustr ''.png'') r5 then Some ds else None)
                       else None)
                else None)
             else None)
      else None)"

text \<open>\<^verbatim>\<open>re.match(r"^flag_(\d+)_metadata\.json$", name)\<close>, returning group 1.\<close>

definition match_metadata :: "py_str \<Rightarrow> py_str option" where
  "match_metadata name =
     (if take 5 name = ustr ''flag_'' then
        (let r1 = drop 5 name; ds = takeWhile is_digit r1; r2 = dropWhile is_digit r1 in
         if ds \<noteq> [] \<and> at_end (ustr ''_metadata.json'') r2 then Some ds else None)
      else None)"

text \<open>
  \<^verbatim>\<open>int(s)\<close> on a group matched by \<^verbatim>\<open>\d+\<close>: a non-empty string of decimal digits. The
  conversion raises \<^verbatim>\<open>ValueError\<close> when the string has more than 4300 digits (leading zeros
  count), the default of \<^verbatim>\<open>sys.int_max_str_digits\<close>.
\<close>

datatype py_exception = ValueError

definition int_max_str_digits :: nat where
  "int_max_str_digits = 4300"

definition py_int :: "py_str \<Rightarrow> py_exception + int" where
  "py_int ds =
     (if length ds > int_max_str_digits then Inl ValueError
      else Inr (foldl (\<lambda>acc c. 10 * acc
                  + (case decimal_value c of None \<Rightarrow> 0 | Some v \<Rightarrow> v)) 0 ds))"

text \<open>A Python dict with integer keys: an association list, a key stored again keeps its
  place and takes the new value.\<close>

type_synonym hash_map = "(int \<times> string) list"

text \<open>The loop over the rows. An exception of \<^verbatim>\<open>int\<close> ends it: nothing is returned.\<close>

fun build_maps ::
  "pin list \<Rightarrow> hash_map \<Rightarrow> hash_map \<Rightarrow> py_exception + (hash_map \<times> hash_map)" where
  "build_maps [] image_map metadata_map = Inr (image_map, metadata_map)"
| "build_maps (p # rows) image_map metadata_map =
     (case (pin_name p, ipfs_pin_hash p) of
        (Some name, Some ipfs_hash) \<Rightarrow>
          if name = [] \<or> ipfs_hash = [] then build_maps rows image_map metadata_map
          else
            (case match_image name of
               Some g \<Rightarrow>
                 (case py_int g of
                    Inl e \<Rightarrow> Inl e
                  | Inr n \<Rightarrow>
                      build_maps rows (AList.update n ipfs_hash image_map) metadata_map)
             | None \<Rightarrow>
                 (case match_metadata name of
                    Some g \<Rightarrow>
                      (case py_int g of
                         Inl e \<Rightarrow> Inl e
                       | Inr n \<Rightarrow>
                           build_maps rows image_map
                             (AList.update n ipfs_hash metadata_map))
                  | None \<Rightarrow> build_maps rows image_map metadata_map))
      | _ \<Rightarrow> build_maps rows image_map metadata_map)"

text \<open>The body of the loop over the flags: the flag it leaves and whether it was updated.\<close>

definition sync_flag :: "hash_map \<Rightarrow> hash_map \<Rightarrow> flag \<Rightarrow> flag \<times> bool" where
  "sync_flag image_map metadata_map f =
     (let image_hash = map_of image_map (flag_id f);
          metadata_hash = map_of metadata_map (flag_id f);
          (f1, updated1) =
            (case image_hash of
               Some h \<Rightarrow>
                 if h \<noteq> [] \<and> image_ipfs_hash f \<noteq> Some h
                 then (f\<lparr>image_ipfs_hash := Some h\<rparr>, True) else (f, False)
             | None \<Rightarrow> (f, False));
          (f2, updated2) =
            (case metadata_hash of
               Some h \<Rightarrow>
                 if h \<noteq> [] \<and> metadata_ipfs_hash f1 \<noteq> Some h
                 then (f1\<lparr>metadata_ipfs_hash := Some h\<rparr>, True) else (f1, updated1)
             | None \<Rightarrow> (f1, updated1))
      in (f2, updated2))"

fun sync_flags :: "hash_map \<Rightarrow> hash_map \<Rightarrow> flag list \<Rightarrow> int \<Rightarrow> flag list \<times> int" where
  "sync_flags image_map metadata_map [] updated_count = ([], updated_count)"
| "sync_flags image_map metadata_map (f # fs) updated_count =
     (let (f', updated) = sync_flag image_map metadata_map f;
          (fs', n) =
            sync_flags image_map metadata_map fs
              (if updated then updated_count + 1 else updated_count)
      in (f' # fs', n))"

text \<open>\<^verbatim>\<open>str(n)\<close> of a count, for the message.\<close>

fun str_nat :: "nat \<Rightarrow> string" where
  "str_nat n =
     (if n < 10 then [char_of (48 + n)]
      else str_nat (n div 10) @ [char_of (48 + n mod 10)])"

definition str_int :: "int \<Rightarrow> string" where
  "str_int i = (if i < 0 then CHR ''-'' # str_nat (nat (- i)) else str_nat (nat i))"

definition sync_message :: "int \<Rightarrow> int \<Rightarrow> int \<Rightarrow> string" where
  "sync_message updated_count n_images n_metadata =
     ''Synced IPFS hashes. Updated '' @ str_int updated_count @ '' flags. ''
     @ ''Found '' @ str_int n_images @ '' images and '' @ str_int n_metadata
     @ '' metadata files in Pinata.''"

text \<open>
  An exception that the handler does not catch is answered by the framework with status
  500; the session is closed without a commit, so the database is left as it was.
\<close>

definition sync_ipfs_from_pinata ::
  "settings \<Rightarrow> pinata_reply \<Rightarrow> database \<Rightarrow> (HTTPException + response) \<times> database" where
  "sync_ipfs_from_pinata cfg reply db =
     (if pinata_jwt cfg = None \<or> pinata_jwt cfg = Some [] then
        (Inl (HTTPException HTTP_400_BAD_REQUEST ''Pinata JWT not configured''), db)
      else if reply_status_code reply \<noteq> 200 then
        (Inl (HTTPException HTTP_502_BAD_GATEWAY
               (''Failed to fetch from Pinata: '' @ reply_text reply)), db)
      else
        (case build_maps (reply_rows reply) [] [] of
           Inl e \<Rightarrow>
             (Inl (HTTPException HTTP_500_INTERNAL_SERVER_ERROR ''Internal Server Error''), db)
         | Inr (image_map, metadata_map) \<Rightarrow>
             (let (flags', updated_count) = sync_flags image_map metadata_map (flags db) 0
              in (Inr (MessageResponse
                         (sync_message updated_count (int (length image_map))
                            (int (length metadata_map)))),
                  db\<lparr>flags := flags'\<rparr>))))"

text \<open>
  The protected endpoints. FastAPI resolves \<^verbatim>\<open>Depends(verify_admin)\<close> before it calls the
  handler: when the dependency raises, the handler does not run.
\<close>

datatype admin_operation = Stats | Seed | Reset | IpfsStatus | SyncIpfs pinata_reply

fun admin_handler ::
  "settings \<Rightarrow> (database \<Rightarrow> database) \<Rightarrow> admin_operation \<Rightarrow> database
     \<Rightarrow> (HTTPException + response) \<times> database" where
  "admin_handler cfg seed_database Stats db = (Inr (StatsResponse (get_admin_stats db)), db)"
| "admin_handler cfg seed_database Seed db = seed_demo_data seed_database db"
| "admin_handler cfg seed_database Reset db = reset_database db"
| "admin_handler cfg seed_database IpfsStatus db =
     (Inr (IpfsStatusResponse (ipfs_status db)), db)"
| "admin_handler cfg seed_database (SyncIpfs reply) db = sync_ipfs_from_pinata cfg reply db"

definition admin_endpoint ::
  "settings \<Rightarrow> (database \<Rightarrow> database) \<Rightarrow> admin_operation \<Rightarrow> string option \<Rightarrow> database
     \<Rightarrow> (HTTPException + response) \<times> database" where
  "admin_endpoint cfg seed_database operation x_admin_key db =
     (case verify_admin cfg x_admin_key of
        Inl e \<Rightarrow> (Inl e, db)
      | Inr _ \<Rightarrow> admin_handler cfg seed_database operation db)"

text \<open>
  Modelled from the spec: the catalog hierarchy (countries, regions, municipalities, flags)
  is declared in \<^verbatim>\<open>models.py\<close>, which is not among the sources. \<open>catalog_integrity\<close> says that
  every region, municipality and flag refers to an existing parent row.
\<close>

definition catalog_integrity :: "database \<Rightarrow> bool" where
  "catalog_integrity db =
     (list_all (\<lambda>r. region_country_id r \<in> country_id ` set (countries db)) (regions db)
      \<and> list_all (\<lambda>m. municipality_region_id m \<in> region_id ` set (regions db))
           (municipalities db)
      \<and> list_all (\<lambda>f. flag_municipality_id f \<in> municipality_id ` set (municipalities db))
           (flags db))"

section \<open>Application start (src/main.py)\<close>

text \<open>\<^verbatim>\<open>startup_event\<close>: \<^verbatim>\<open>database.init_db\<close> and \<^verbatim>\<open>seed_data.seed_database\<close> are not among
  the sources and are parameters.\<close>

definition startup_event ::
  "(database \<Rightarrow> database) \<Rightarrow> (database \<Rightarrow> database) \<Rightarrow> database \<Rightarrow> database" where
  "startup_event init_db seed_database db0 =
     (let db = init_db db0;
          existing = count_rows (countries db)
      in if existing = 0 then seed_database db else db)"

section \<open>Auction engine\<close>

text \<open>
  Modelled from the spec: the auction router and the code that writes
  \<^verbatim>\<open>FlagOwnership\<close> and \<^verbatim>\<open>Flag.is_pair_complete\<close> are not among the sources. The
  operations below follow sections 4.1 to 4.4 of the specification, on the tables of the
  data model. The clock is an argument of the operations that read it. Pair-mate
  resolution is a catalog lookup of a collaborator and is a parameter (\<open>mate\<close>). The
  optional \<^verbatim>\<open>SelfOwnedAsset\<close> policy is switched off.
\<close>

datatype engine_error =
    AuctionNotActive | AuctionClosed | BidTooLow | UnknownAuction | UnknownFlag
  | IllegalStateTransition | InconsistentPairState

definition find_auction :: "database \<Rightarrow> int \<Rightarrow> auction option" where
  "find_auction db aid = find (\<lambda>a. auction_id a = aid) (auctions db)"

definition update_auction :: "int \<Rightarrow> (auction \<Rightarrow> auction) \<Rightarrow> database \<Rightarrow> database" where
  "update_auction aid upd db =
     db\<lparr>auctions := map (\<lambda>a. if auction_id a = aid then upd a else a) (auctions db)\<rparr>"

text \<open>BidLedger: the bids of one auction, in the order they were appended.\<close>

definition allBids :: "database \<Rightarrow> int \<Rightarrow> bid list" where
  "allBids db aid = filter (\<lambda>b. bid_auction_id b = aid) (bids db)"

text \<open>\<open>better b c\<close>: \<open>b\<close> has the greater amount, or the same amount and an earlier
  timestamp.\<close>

definition better :: "bid \<Rightarrow> bid \<Rightarrow> bool" where
  "better b c = (amount b > amount c \<or> (amount b = amount c \<and> timestamp b < timestamp c))"

fun highest :: "bid list \<Rightarrow> bid option" where
  "highest [] = None"
| "highest (b # bs) =
     (case highest bs of
        None \<Rightarrow> Some b
      | Some c \<Rightarrow> if better c b then Some c else Some b)"

definition highestBid :: "database \<Rightarrow> int \<Rightarrow> bid option" where
  "highestBid db aid = highest (allBids db aid)"

text \<open>The amount a new bid must strictly exceed: the current highest accepted bid, or
  the reserve price if no bids exist yet.\<close>

definition threshold :: "database \<Rightarrow> auction \<Rightarrow> int" where
  "threshold db a =
     (case highestBid db (auction_id a) of
        None \<Rightarrow> reserve_price a
      | Some b \<Rightarrow> amount b)"

definition next_id :: "int list \<Rightarrow> int" where
  "next_id ids = fold max ids 0 + 1"

text \<open>
  \<^verbatim>\<open>placeBid(auctionId, userId, amount)\<close> at time \<open>now\<close>. A bid at or after the closing
  time fails with \<^verbatim>\<open>AuctionClosed\<close> regardless of amount, so the clock is compared first;
  then the state, then the amount. An accepted bid is appended to the ledger.
\<close>

definition placeBid ::
  "database \<Rightarrow> int \<Rightarrow> int \<Rightarrow> int \<Rightarrow> int \<Rightarrow> engine_error + (int \<times> database)" where
  "placeBid db aid uid amt now =
     (case find_auction db aid of
        None \<Rightarrow> Inl UnknownAuction
      | Some a \<Rightarrow>
          if closing_time a \<le> now then Inl AuctionClosed
          else if status a \<noteq> ACTIVE then Inl AuctionNotActive
          else if \<not> threshold db a < amt then Inl BidTooLow
          else
            (let b = \<lparr>bid_id = next_id (map bid_id (bids db)), bid_auction_id = aid,
                      bidder_id = uid, amount = amt, timestamp = now\<rparr>
             in Inr (bid_id b, db\<lparr>bids := bids db @ [b]\<rparr>)))"

text \<open>AuctionLifecycle: creation, the clock-driven transitions and cancellation.\<close>

definition createAuction ::
  "database \<Rightarrow> int \<Rightarrow> int \<Rightarrow> int \<Rightarrow> int \<Rightarrow> int \<Rightarrow> engine_error + (int \<times> database)" where
  "createAuction db fid openAt closeAt reservePrice now =
     (if \<not> list_ex (\<lambda>f. flag_id f = fid) (flags db) then Inl UnknownFlag
      else
        (let a = \<lparr>auction_id = next_id (map auction_id (auctions db)), auction_flag_id = fid,
                  status = (if openAt \<le> now then ACTIVE else PENDING),
                  opening_time = openAt, closing_time = closeAt,
                  reserve_price = reservePrice, winner = None\<rparr>
         in Inr (auction_id a, db\<lparr>auctions := auctions db @ [a]\<rparr>)))"

definition advance :: "int \<Rightarrow> auction \<Rightarrow> auction" where
  "advance now a =
     (if status a = PENDING \<and> opening_time a \<le> now then a\<lparr>status := ACTIVE\<rparr>
      else if status a = ACTIVE \<and> closing_time a \<le> now then a\<lparr>status := CLOSING\<rparr>
      else a)"

definition cancelAuction :: "database \<Rightarrow> int \<Rightarrow> engine_error + database" where
  "cancelAuction db aid =
     (case find_auction db aid of
        None \<Rightarrow> Inl UnknownAuction
      | Some a \<Rightarrow>
          if status a = PENDING \<or> status a = ACTIVE
          then Inr (update_auction aid (\<lambda>a. a\<lparr>status := CANCELLED\<rparr>) db)
          else Inl IllegalStateTransition)"

text \<open>OwnershipStore: at most one ownership record per flag; a write replaces the
  prior owner.\<close>

definition getOwnership :: "database \<Rightarrow> int \<Rightarrow> int option" where
  "getOwnership db fid =
     map_option ownership_user_id (find (\<lambda>rec. ownership_flag_id rec = fid) (flag_ownerships db))"

definition write_ownership :: "database \<Rightarrow> int \<Rightarrow> int \<Rightarrow> database" where
  "write_ownership db fid uid =
     db\<lparr>flag_ownerships :=
          \<lparr>ownership_id = next_id (map ownership_id (flag_ownerships db)),
           ownership_user_id = uid, ownership_flag_id = fid\<rparr>
          # filter (\<lambda>rec. ownership_flag_id rec \<noteq> fid) (flag_ownerships db)\<rparr>"

text \<open>PairCompletionTracker: both mates have an owner and both owners are the same user.
  \<^verbatim>\<open>recompute\<close> re-evaluates both sides of the pair.\<close>

definition same_owner :: "(int \<Rightarrow> int) \<Rightarrow> database \<Rightarrow> int \<Rightarrow> bool" where
  "same_owner mate db fid =
     (case (getOwnership db fid, getOwnership db (mate fid)) of
        (Some u, Some v) \<Rightarrow> u = v
      | _ \<Rightarrow> False)"

definition set_pair_complete :: "int \<Rightarrow> bool \<Rightarrow> database \<Rightarrow> database" where
  "set_pair_complete fid v db =
     db\<lparr>flags := map (\<lambda>f. if flag_id f = fid then f\<lparr>is_pair_complete := v\<rparr> else f) (flags db)\<rparr>"

definition recompute :: "(int \<Rightarrow> int) \<Rightarrow> database \<Rightarrow> int \<Rightarrow> database" where
  "recompute mate db fid =
     set_pair_complete (mate fid) (same_owner mate db (mate fid))
       (set_pair_complete fid (same_owner mate db fid) db)"

definition getPairStatus :: "database \<Rightarrow> int \<Rightarrow> bool" where
  "getPairStatus db fid = list_ex (\<lambda>f. flag_id f = fid \<and> is_pair_complete f) (flags db)"

text \<open>
  SettlementCoordinator. \<^verbatim>\<open>settle(auctionId)\<close> returns the winner, if any. On an auction
  that is already \<^verbatim>\<open>SETTLED\<close> it returns the recorded winner and writes nothing; otherwise
  the auction must be \<^verbatim>\<open>CLOSING\<close>, and the four steps run as one unit.
\<close>

definition settle ::
  "(int \<Rightarrow> int) \<Rightarrow> database \<Rightarrow> int \<Rightarrow> (engine_error + int option) \<times> database" where
  "settle mate db aid =
     (case find_auction db aid of
        None \<Rightarrow> (Inl UnknownAuction, db)
      | Some a \<Rightarrow>
          if status a = SETTLED then (Inr (winner a), db)
          else if status a \<noteq> CLOSING then (Inl IllegalStateTransition, db)
          else
            (case highestBid db aid of
               None \<Rightarrow>
                 (Inr None, update_auction aid (\<lambda>a. a\<lparr>status := SETTLED, winner := None\<rparr>) db)
             | Some b \<Rightarrow>
                 (let db1 = write_ownership db (auction_flag_id a) (bidder_id b);
                      db2 = recompute mate db1 (auction_flag_id a);
                      db3 = update_auction aid
                              (\<lambda>a. a\<lparr>status := SETTLED, winner := Some (bidder_id b)\<rparr>) db2
                  in (Inr (Some (bidder_id b)), db3))))"

text \<open>InterestRegistry: recording the same interest twice leaves one record.\<close>

definition recordInterest :: "database \<Rightarrow> int \<Rightarrow> int \<Rightarrow> database" where
  "recordInterest db uid fid =
     (if list_ex (\<lambda>i. interest_user_id i = uid \<and> interest_flag_id i = fid) (flag_interests db)
      then db
      else db\<lparr>flag_interests := flag_interests db
                @ [\<lparr>interest_id = next_id (map interest_id (flag_interests db)),
                    interest_user_id = uid, interest_flag_id = fid\<rparr>]\<rparr>)"

text \<open>A sequence of bids on one auction: each request with the database it was placed on
  and its outcome, and the database after the last one.\<close>

record bid_request =
  req_user :: int
  req_amount :: int
  req_time :: int

fun place_bids ::
  "database \<Rightarrow> int \<Rightarrow> bid_request list
     \<Rightarrow> (database \<times> bid_request \<times> (engine_error + int)) list \<times> database" where
  "place_bids db aid [] = ([], db)"
| "place_bids db aid (r # rs) =
     (case placeBid db aid (req_user r) (req_amount r) (req_time r) of
        Inl e \<Rightarrow>
          (let (tr, db') = place_bids db aid rs in ((db, r, Inl e) # tr, db'))
      | Inr (new_id, db1) \<Rightarrow>
          (let (tr, db') = place_bids db1 aid rs in ((db, r, Inr new_id) # tr, db')))"

text \<open>The bids that a sequence of requests added to the ledger, in the order of acceptance.\<close>

fun accepted_bids ::
  "int \<Rightarrow> (database \<times> bid_request \<times> (engine_error + int)) list \<Rightarrow> bid list" where
  "accepted_bids aid [] = []"
| "accepted_bids aid ((s, r, Inl e) # tr) = accepted_bids aid tr"
| "accepted_bids aid ((s, r, Inr new_id) # tr) =
     \<lparr>bid_id = new_id, bid_auction_id = aid, bidder_id = req_user r,
      amount = req_amount r, timestamp = req_time r\<rparr> # accepted_bids aid tr"

section \<open>Reachable states\<close>

text \<open>
  The operations that change the database: those of the engine and the two admin
  operations of the source that write (reset and IPFS synchronisation). A failed operation
  leaves the database as it was. The catalog is created outside (\<^verbatim>\<open>seed_data.py\<close>); a
  \<open>fresh\<close> database is one in which no flag has an owner yet and no flag is marked
  complete.
\<close>

datatype engine_op =
    OpCreateAuction int int int int int
  | OpAdvance int int
  | OpPlaceBid int int int int
  | OpSettle int
  | OpCancel int
  | OpRecordInterest int int
  | OpAdminReset
  | OpAdminSync pinata_reply

fun apply_op :: "(int \<Rightarrow> int) \<Rightarrow> settings \<Rightarrow> engine_op \<Rightarrow> database \<Rightarrow> database" where
  "apply_op mate cfg (OpCreateAuction fid openAt closeAt reservePrice now) db =
     (case createAuction db fid openAt closeAt reservePrice now of
        Inl e \<Rightarrow> db
      | Inr (new_id, db') \<Rightarrow> db')"
| "apply_op mate cfg (OpAdvance aid now) db = update_auction aid (advance now) db"
| "apply_op mate cfg (OpPlaceBid aid uid amt now) db =
     (case placeBid db aid uid amt now of
        Inl e \<Rightarrow> db
      | Inr (new_id, db') \<Rightarrow> db')"
| "apply_op mate cfg (OpSettle aid) db = snd (settle mate db aid)"
| "apply_op mate cfg (OpCancel aid) db =
     (case cancelAuction db aid of Inl e \<Rightarrow> db | Inr db' \<Rightarrow> db')"
| "apply_op mate cfg (OpRecordInterest uid fid) db = recordInterest db uid fid"
| "apply_op mate cfg OpAdminReset db = snd (reset_database db)"
| "apply_op mate cfg (OpAdminSync reply) db = snd (sync_ipfs_from_pinata cfg reply db)"

fun run :: "(int \<Rightarrow> int) \<Rightarrow> settings \<Rightarrow> engine_op list \<Rightarrow> database \<Rightarrow> database" where
  "run mate cfg [] db = db"
| "run mate cfg (operation # ops) db = run mate cfg ops (apply_op mate cfg operation db)"

definition fresh :: "database \<Rightarrow> bool" where
  "fresh db = (flag_ownerships db = [] \<and> list_all (\<lambda>f. \<not> is_pair_complete f) (flags db))"

text \<open>The derived field of every flag row agrees with the owners of its pair.\<close>

definition pair_invariant :: "(int \<Rightarrow> int) \<Rightarrow> database \<Rightarrow> bool" where
  "pair_invariant mate db =
     list_all (\<lambda>f. is_pair_complete f = same_owner mate db (flag_id f)) (flags db)"

section \<open>Example data\<close>

definition example_settings :: settings where
  "example_settings =
     \<lparr>admin_api_key = ''secret'', pinata_jwt = Some ''jwt'',
      project_name = ''Municipal Flag NFT Game'', environment = ''development''\<rparr>"

definition example_auction :: auction where
  "example_auction =
     \<lparr>auction_id = 1, auction_flag_id = 64, status = ACTIVE, opening_time = 0,
      closing_time = 100, reserve_price = 10, winner = None\<rparr>"

definition example_database :: database where
  "example_database =
     \<lparr>countries = [\<lparr>country_id = 1\<rparr>],
      regions = [\<lparr>region_id = 1, region_country_id = 1\<rparr>],
      municipalities = [\<lparr>municipality_id = 1, municipality_region_id = 1\<rparr>],
      flags =
        [\<lparr>flag_id = 64, flag_municipality_id = 1, is_pair_complete = False,
          image_ipfs_hash = None, metadata_ipfs_hash = None\<rparr>,
         \<lparr>flag_id = 65, flag_municipality_id = 1, is_pair_complete = False,
          image_ipfs_hash = Some ''QmOld'', metadata_ipfs_hash = None\<rparr>],
      users = [\<lparr>user_id = 1\<rparr>, \<lparr>user_id = 2\<rparr>],
      user_connections = [\<lparr>connection_id = 1, follower_id = 1, following_id = 2\<rparr>],
      flag_interests = [\<lparr>interest_id = 1, interest_user_id = 1, interest_flag_id = 64\<rparr>],
      flag_ownerships = [],
      auctions = [example_auction],
      bids =
        [\<lparr>bid_id = 1, bid_auction_id = 1, bidder_id = 2, amount = 15, timestamp = 5\<rparr>]\<rparr>"

text \<open>Flags 64 and 65 are the two variants of one municipality.\<close>

definition example_mate :: "int \<Rightarrow> int" where
  "example_mate fid = (if even fid then fid + 1 else fid - 1)"

definition example_ops :: "engine_op list" where
  "example_ops =
     [OpAdvance 1 100, OpSettle 1, OpCreateAuction 65 0 200 10 100,
      OpPlaceBid 2 2 20 150, OpAdvance 2 200, OpSettle 2]"

definition example_closing_database :: database where
  "example_closing_database = update_auction 1 (advance 100) example_database"

definition example_requests :: "bid_request list" where
  "example_requests =
     [\<lparr>req_user = 1, req_amount = 12, req_time = 10\<rparr>,
      \<lparr>req_user = 1, req_amount = 20, req_time = 20\<rparr>,
      \<lparr>req_user = 2, req_amount = 20, req_time = 30\<rparr>,
      \<lparr>req_user = 2, req_amount = 5, req_time = 100\<rparr>]"

definition example_pinata_reply :: pinata_reply where
  "example_pinata_reply =
     \<lparr>reply_status_code = 200, reply_text = [],
      reply_rows =
        [\<lparr>pin_name = Some (ustr ''ITA_siena_064.png'' @ [10]),
          ipfs_pin_hash = Some ''QmNew''\<rparr>]\<rparr>"

definition example_cancelled_database :: database where
  "example_cancelled_database =
     update_auction 1 (\<lambda>a. a\<lparr>status := CANCELLED\<rparr>) example_database"

section \<open>Properties of the admin router\<close>

lemma length_filter_split:
  "length xs = length (filter P xs) + length (filter (\<lambda>x. \<not> P x) xs)"
  by (induction xs) auto

text \<open>
  C10. In the ipfs-status report, for every database state, \<^verbatim>\<open>flags_pending_upload\<close> is
  \<^verbatim>\<open>total_flags - flags_with_image_hash\<close>, it is the number of flags whose
  \<^verbatim>\<open>image_ipfs_hash\<close> is null, and it is never negative.
\<close>

theorem ipfs_status_pending:
  "flags_pending_upload (ipfs_status db) =
     ipfs_total_flags (ipfs_status db) - flags_with_image_hash (ipfs_status db)
   \<and> flags_pending_upload (ipfs_status db) =
     int (length (filter (\<lambda>f. image_ipfs_hash f = None) (flags db)))
   \<and> 0 \<le> flags_pending_upload (ipfs_status db)"
proof -
  have "length (flags db) =
      length (filter (\<lambda>f. image_ipfs_hash f \<noteq> None) (flags db))
      + length (filter (\<lambda>f. \<not> image_ipfs_hash f \<noteq> None) (flags db))"
    by (rule length_filter_split)
  then show ?thesis
    by (simp add: ipfs_status_def count_rows_def Let_def)
qed

lemma handler_not_403:
  "fst (admin_handler cfg seed operation db) = Inl e \<Longrightarrow> status_code e \<noteq> 403"
  by (cases operation)
     (auto simp: seed_demo_data_def reset_database_def sync_ipfs_from_pinata_def Let_def
         HTTP_400_BAD_REQUEST_def HTTP_502_BAD_GATEWAY_def HTTP_500_INTERNAL_SERVER_ERROR_def
         split: if_splits prod.splits sum.splits)

text \<open>
  C3. Every protected admin operation (stats, seed, reset, ipfs-status, IPFS sync) runs its
  handler if and only if the \<^verbatim>\<open>X-Admin-Key\<close> header equals the configured admin credential;
  when the header differs or is absent the call fails with HTTP 403 and the database is
  unchanged. No handler raises 403 itself, so a 403 is returned exactly when the key is wrong.
\<close>

theorem admin_endpoint_guard:
  "admin_endpoint cfg seed operation x_admin_key db =
     (if x_admin_key = Some (admin_api_key cfg)
      then admin_handler cfg seed operation db
      else (Inl (HTTPException HTTP_403_FORBIDDEN ''Invalid or missing admin API key''), db))
   \<and> ((\<exists>e. fst (admin_endpoint cfg seed operation x_admin_key db) = Inl e \<and> status_code e = 403)
        \<longleftrightarrow> x_admin_key \<noteq> Some (admin_api_key cfg))"
proof -
  have eq: "admin_endpoint cfg seed operation x_admin_key db =
     (if x_admin_key = Some (admin_api_key cfg)
      then admin_handler cfg seed operation db
      else (Inl (HTTPException HTTP_403_FORBIDDEN ''Invalid or missing admin API key''), db))"
    by (simp add: admin_endpoint_def verify_admin_def)
  have "(\<exists>e. fst (admin_endpoint cfg seed operation x_admin_key db) = Inl e \<and> status_code e = 403)
        \<longleftrightarrow> x_admin_key \<noteq> Some (admin_api_key cfg)"
  proof (cases "x_admin_key = Some (admin_api_key cfg)")
    case True
    then show ?thesis using handler_not_403[of cfg seed operation db] unfolding eq by auto
  next
    case False
    then show ?thesis by (simp add: eq HTTP_403_FORBIDDEN_def)
  qed
  with eq show ?thesis by blast
qed

theorem admin_endpoint_guard_witness:
  "admin_endpoint example_settings id Reset None example_database =
     (Inl (HTTPException 403 ''Invalid or missing admin API key''), example_database)
   \<and> admin_endpoint example_settings id Reset (Some ''guess'') example_database =
     (Inl (HTTPException 403 ''Invalid or missing admin API key''), example_database)
   \<and> admin_endpoint example_settings id Reset (Some ''secret'') example_database =
     (Inr (MessageResponse ''Database reset successfully''), empty_database)"
  using admin_endpoint_guard [of example_settings id Reset None example_database]
    admin_endpoint_guard [of example_settings id Reset "Some ''guess''" example_database]
    admin_endpoint_guard [of example_settings id Reset "Some ''secret''" example_database]
  by (simp add: example_settings_def HTTP_403_FORBIDDEN_def reset_database_def reset_order_def
      example_database_def empty_database_def)

text \<open>
  C8. Seeding is guarded by emptiness. The seed handler fails with HTTP 400 and leaves the
  database unchanged whenever a Country row exists (whatever \<^verbatim>\<open>seed_database\<close> would do),
  and through the endpoint the database is unchanged for every key; it seeds when there is
  no Country row. The startup auto-seed leaves the initialised database as it is when a
  Country row exists and seeds it only when there is none. In a database whose catalog
  rows all refer to existing parents, no Country row means no region, municipality or flag
  either: the whole catalog is empty when seeding occurs.
\<close>

lemma list_all_False: "list_all (\<lambda>x. False) xs \<longleftrightarrow> xs = []"
  by (cases xs) simp_all

lemma catalog_empty:
  assumes "catalog_integrity db" and "countries db = []"
  shows "regions db = [] \<and> municipalities db = [] \<and> flags db = []"
proof -
  from assms have r: "regions db = []"
    by (simp add: catalog_integrity_def list_all_False)
  with assms have m: "municipalities db = []"
    by (simp add: catalog_integrity_def list_all_False)
  with assms have "flags db = []"
    by (simp add: catalog_integrity_def list_all_False)
  with r m show ?thesis by simp
qed

theorem seed_only_when_empty:
  "(countries db \<noteq> [] \<longrightarrow>
      seed_demo_data seed db =
        (Inl (HTTPException HTTP_400_BAD_REQUEST ''Database already has data. Cannot seed.''), db)
      \<and> snd (admin_endpoint cfg seed Seed x_admin_key db) = db)
   \<and> (countries db = [] \<longrightarrow>
      seed_demo_data seed db =
        (Inr (MessageResponse ''Demo data seeded successfully''), seed db))
   \<and> (countries (init_db db0) \<noteq> [] \<longrightarrow> startup_event init_db seed db0 = init_db db0)
   \<and> (countries (init_db db0) = [] \<longrightarrow> startup_event init_db seed db0 = seed (init_db db0))
   \<and> (catalog_integrity db \<and> countries db = [] \<longrightarrow>
      regions db = [] \<and> municipalities db = [] \<and> flags db = [])"
proof -
  have "catalog_integrity db \<and> countries db = [] \<longrightarrow>
      regions db = [] \<and> municipalities db = [] \<and> flags db = []"
    using catalog_empty[of db] by blast
  then show ?thesis
    by (simp add: seed_demo_data_def startup_event_def count_rows_def Let_def
        admin_endpoint_def verify_admin_def)
qed

theorem seed_only_when_empty_witness:
  "seed_demo_data (\<lambda>_. empty_database) example_database =
     (Inl (HTTPException 400 ''Database already has data. Cannot seed.''), example_database)
   \<and> snd (admin_endpoint example_settings (\<lambda>_. empty_database) Seed (Some ''secret'')
            example_database) = example_database
   \<and> seed_demo_data (\<lambda>_. example_database) empty_database =
     (Inr (MessageResponse ''Demo data seeded successfully''), example_database)
   \<and> startup_event id (\<lambda>_. empty_database) example_database = example_database
   \<and> startup_event id (\<lambda>_. example_database) empty_database = example_database
   \<and> catalog_integrity empty_database \<and> catalog_integrity example_database
   \<and> flags empty_database = []"
  using seed_only_when_empty [of example_database "\<lambda>_. empty_database" example_settings
      "Some ''secret''" id example_database]
    seed_only_when_empty [of empty_database "\<lambda>_. example_database" example_settings
      "Some ''secret''" id empty_database]
  by (simp add: example_database_def empty_database_def HTTP_400_BAD_REQUEST_def
      catalog_integrity_def)

text \<open>
  C2. The administrative reset deletes the ten tables in the order interests, ownerships,
  bids, auctions, user connections, users, flags, municipalities, regions, countries;
  afterwards every table is empty. Each delete runs on a database in which every table
  that references the deleted one is already empty; in particular the bids are gone when
  the auctions are deleted.
\<close>

theorem reset_database_order:
  "reset_database db = (Inr (MessageResponse ''Database reset successfully''), empty_database)
   \<and> map fst (reset_steps db) = reset_order
   \<and> list_all (\<lambda>(m, s). delete_safe m s) (reset_steps db)
   \<and> list_all (\<lambda>(m, s). m = Auction \<longrightarrow> bids s = []) (reset_steps db)"
proof -
  have 1: "reset_database db = (Inr (MessageResponse ''Database reset successfully''), empty_database)"
    by (cases db) (simp add: reset_database_def reset_order_def empty_database_def)
  have 2: "map fst (reset_steps db) = reset_order"
    by (simp add: reset_steps_def reset_order_def)
  have 3: "list_all (\<lambda>(m, s). delete_safe m s) (reset_steps db)"
    by (simp add: reset_steps_def reset_order_def delete_safe_def all_models_def
        references_def foreign_keys_def)
  have 4: "list_all (\<lambda>(m, s). m = Auction \<longrightarrow> bids s = []) (reset_steps db)"
    by (simp add: reset_steps_def reset_order_def)
  from 1 2 3 4 show ?thesis by blast
qed

theorem reset_database_order_witness:
  "reset_database example_database =
     (Inr (MessageResponse ''Database reset successfully''), empty_database)
   \<and> list_all (\<lambda>(m, s). delete_safe m s) (reset_steps example_database)
   \<and> list_all (\<lambda>(m, s). m = Auction \<longrightarrow> bids s = []) (reset_steps example_database)
   \<and> bids example_database \<noteq> [] \<and> auctions example_database \<noteq> []"
  using reset_database_order [of example_database]
  by (simp add: example_database_def)

section \<open>Properties of the auction engine\<close>

lemma find_map_upd:
  assumes "\<And>a. key (upd a) = key a"
  shows "find (\<lambda>a. key a = k') (map (\<lambda>a. if key a = k then upd a else a) xs) =
     (if k' = k then map_option upd (find (\<lambda>a. key a = k) xs) else find (\<lambda>a. key a = k') xs)"
  using assms by (induction xs) auto

lemma find_auction_update:
  assumes "\<And>a. auction_id (upd a) = auction_id a"
  shows "find_auction (update_auction aid upd db) aid' =
     (if aid' = aid then map_option upd (find_auction db aid) else find_auction db aid')"
  unfolding find_auction_def update_auction_def
  using find_map_upd[of auction_id upd aid' aid "auctions db", OF assms] by simp

lemma find_filter_other:
  "g \<noteq> f \<Longrightarrow> find (\<lambda>r. key r = g) (filter (\<lambda>r. key r \<noteq> f) xs) = find (\<lambda>r. key r = g) xs"
  by (induction xs) auto

lemma getOwnership_write:
  "getOwnership (write_ownership db f u) g = (if g = f then Some u else getOwnership db g)"
  by (simp add: getOwnership_def write_ownership_def find_filter_other)

lemma getOwnership_cong:
  "flag_ownerships db' = flag_ownerships db \<Longrightarrow> getOwnership db' = getOwnership db"
  by (rule ext) (simp add: getOwnership_def)

lemma same_owner_cong:
  "flag_ownerships db' = flag_ownerships db \<Longrightarrow> same_owner mate db' = same_owner mate db"
  using getOwnership_cong[of db' db] by (simp add: same_owner_def fun_eq_iff)

lemma pair_invariant_cong:
  "flags db' = flags db \<Longrightarrow> flag_ownerships db' = flag_ownerships db \<Longrightarrow>
   pair_invariant mate db' = pair_invariant mate db"
  using same_owner_cong[of db' db mate] by (simp add: pair_invariant_def)

lemma same_owner_iff:
  "same_owner mate db fid \<longleftrightarrow>
     (\<exists>u. getOwnership db fid = Some u \<and> getOwnership db (mate fid) = Some u)"
  by (auto simp: same_owner_def split: option.splits)

lemma same_owner_write_other:
  assumes inv: "\<And>x. mate (mate x) = x" and "g \<noteq> f" and "g \<noteq> mate f"
  shows "same_owner mate (write_ownership db f u) g = same_owner mate db g"
proof -
  have "mate g \<noteq> f"
  proof
    assume "mate g = f"
    then have "mate (mate g) = mate f" by simp
    with inv have "g = mate f" by simp
    with assms(3) show False by simp
  qed
  with assms(2) show ?thesis by (simp add: same_owner_def getOwnership_write)
qed

lemma flags_recompute:
  "flags (recompute mate db fid) =
     map (\<lambda>f. if flag_id f = mate fid then f\<lparr>is_pair_complete := same_owner mate db (mate fid)\<rparr>
              else if flag_id f = fid then f\<lparr>is_pair_complete := same_owner mate db fid\<rparr>
              else f) (flags db)"
  by (auto simp: recompute_def set_pair_complete_def)

lemma ownerships_recompute: "flag_ownerships (recompute mate db fid) = flag_ownerships db"
  by (simp add: recompute_def set_pair_complete_def)

lemma pair_invariant_write_recompute:
  assumes inv: "\<And>x. mate (mate x) = x" and pi: "pair_invariant mate db"
  shows "pair_invariant mate (recompute mate (write_ownership db fid u) fid)"
proof -
  let ?db1 = "write_ownership db fid u"
  have so: "same_owner mate (recompute mate ?db1 fid) = same_owner mate ?db1"
    by (rule same_owner_cong) (rule ownerships_recompute)
  have fl: "flags ?db1 = flags db" by (simp add: write_ownership_def)
  have old: "\<And>f. f \<in> set (flags db) \<Longrightarrow> is_pair_complete f = same_owner mate db (flag_id f)"
    using pi by (simp add: pair_invariant_def list_all_iff)
  have "is_pair_complete f' = same_owner mate ?db1 (flag_id f')"
    if "f' \<in> set (flags (recompute mate ?db1 fid))" for f'
  proof -
    from that obtain f where f: "f \<in> set (flags db)"
      and f': "f' = (if flag_id f = mate fid
                    then f\<lparr>is_pair_complete := same_owner mate ?db1 (mate fid)\<rparr>
                    else if flag_id f = fid
                    then f\<lparr>is_pair_complete := same_owner mate ?db1 fid\<rparr>
                    else f)"
      unfolding flags_recompute fl by auto
    show ?thesis
    proof (cases "flag_id f = mate fid \<or> flag_id f = fid")
      case True
      then show ?thesis using f' by auto
    next
      case False
      then have "same_owner mate ?db1 (flag_id f) = same_owner mate db (flag_id f)"
        using same_owner_write_other[of mate "flag_id f" fid db u, OF inv] by simp
      then show ?thesis using False f' old[OF f] by simp
    qed
  qed
  then show ?thesis
    unfolding pair_invariant_def so list_all_iff by blast
qed

lemma pair_invariant_settle:
  assumes inv: "\<And>x. mate (mate x) = x" and pi: "pair_invariant mate db"
  shows "pair_invariant mate (snd (settle mate db aid))"
proof (cases "find_auction db aid")
  case None
  then show ?thesis using pi by (simp add: settle_def)
next
  case (Some a)
  show ?thesis
  proof (cases "status a = CLOSING")
    case False
    then show ?thesis using pi Some by (simp add: settle_def)
  next
    case True
    show ?thesis
    proof (cases "highestBid db aid")
      case None
      have "pair_invariant mate (update_auction aid (\<lambda>a. a\<lparr>status := SETTLED, winner := None\<rparr>) db)
          = pair_invariant mate db"
        by (rule pair_invariant_cong) (simp_all add: update_auction_def)
      then show ?thesis using pi Some True None by (simp add: settle_def)
    next
      case (Some b)
      let ?db2 = "recompute mate (write_ownership db (auction_flag_id a) (bidder_id b)) (auction_flag_id a)"
      have "pair_invariant mate (update_auction aid (\<lambda>a. a\<lparr>status := SETTLED, winner := Some (bidder_id b)\<rparr>) ?db2)
          = pair_invariant mate ?db2"
        by (rule pair_invariant_cong) (simp_all add: update_auction_def)
      moreover have "pair_invariant mate ?db2"
        by (rule pair_invariant_write_recompute[OF inv pi])
      ultimately show ?thesis using \<open>find_auction db aid = Some a\<close> True Some
        by (simp add: settle_def Let_def)
    qed
  qed
qed


lemma sync_flag_keeps:
  "flag_id (fst (sync_flag im mm f)) = flag_id f"
  "is_pair_complete (fst (sync_flag im mm f)) = is_pair_complete f"
  by (auto simp: sync_flag_def Let_def split: option.splits)

lemma sync_flags_map:
  "fst (sync_flags im mm fs n) = map (\<lambda>f. fst (sync_flag im mm f)) fs"
  by (induction fs arbitrary: n) (simp_all add: Let_def case_prod_unfold)

lemma sync_database:
  "flag_ownerships (snd (sync_ipfs_from_pinata cfg reply db)) = flag_ownerships db"
  "\<exists>im mm. flags (snd (sync_ipfs_from_pinata cfg reply db)) = flags db
     \<or> flags (snd (sync_ipfs_from_pinata cfg reply db)) = map (\<lambda>f. fst (sync_flag im mm f)) (flags db)"
proof -
  show "flag_ownerships (snd (sync_ipfs_from_pinata cfg reply db)) = flag_ownerships db"
    by (simp add: sync_ipfs_from_pinata_def Let_def split: prod.splits sum.splits)
  show "\<exists>im mm. flags (snd (sync_ipfs_from_pinata cfg reply db)) = flags db
     \<or> flags (snd (sync_ipfs_from_pinata cfg reply db)) = map (\<lambda>f. fst (sync_flag im mm f)) (flags db)"
  proof (cases "build_maps (reply_rows reply) [] []")
    case (Inl e)
    then have "flags (snd (sync_ipfs_from_pinata cfg reply db)) = flags db"
      by (simp add: sync_ipfs_from_pinata_def)
    then show ?thesis by blast
  next
    case (Inr maps)
    obtain im mm where maps: "maps = (im, mm)" by (cases maps)
    obtain fs n where sf: "sync_flags im mm (flags db) 0 = (fs, n)"
      by (cases "sync_flags im mm (flags db) 0")
    have "fs = map (\<lambda>f. fst (sync_flag im mm f)) (flags db)"
      using sync_flags_map[of im mm "flags db" 0] sf by simp
    then have "flags (snd (sync_ipfs_from_pinata cfg reply db)) = flags db
       \<or> flags (snd (sync_ipfs_from_pinata cfg reply db)) = map (\<lambda>f. fst (sync_flag im mm f)) (flags db)"
      using Inr maps sf by (simp add: sync_ipfs_from_pinata_def Let_def)
    then show ?thesis by blast
  qed
qed

lemma pair_invariant_sync:
  assumes pi: "pair_invariant mate db"
  shows "pair_invariant mate (snd (sync_ipfs_from_pinata cfg reply db))"
proof -
  let ?db' = "snd (sync_ipfs_from_pinata cfg reply db)"
  have so: "same_owner mate ?db' = same_owner mate db"
    by (rule same_owner_cong) (rule sync_database(1))
  from sync_database(2)[of cfg reply db] obtain im mm where
    "flags ?db' = flags db \<or> flags ?db' = map (\<lambda>f. fst (sync_flag im mm f)) (flags db)"
    by blast
  then show ?thesis
  proof
    assume "flags ?db' = flags db"
    then show ?thesis using pi unfolding pair_invariant_def so by simp
  next
    assume "flags ?db' = map (\<lambda>f. fst (sync_flag im mm f)) (flags db)"
    then show ?thesis using pi unfolding pair_invariant_def so
      by (simp add: list_all_iff sync_flag_keeps)
  qed
qed

lemma pair_invariant_apply_op:
  assumes inv: "\<And>x. mate (mate x) = x" and pi: "pair_invariant mate db"
  shows "pair_invariant mate (apply_op mate cfg operation db)"
proof (cases operation)
  case (OpCreateAuction fid openAt closeAt reservePrice now)
  have "pair_invariant mate (apply_op mate cfg operation db) = pair_invariant mate db"
    by (rule pair_invariant_cong)
       (auto simp: OpCreateAuction createAuction_def Let_def)
  with pi show ?thesis by simp
next
  case (OpAdvance aid now)
  have "pair_invariant mate (apply_op mate cfg operation db) = pair_invariant mate db"
    by (rule pair_invariant_cong) (auto simp: OpAdvance update_auction_def)
  with pi show ?thesis by simp
next
  case (OpPlaceBid aid uid amt now)
  have "pair_invariant mate (apply_op mate cfg operation db) = pair_invariant mate db"
    by (rule pair_invariant_cong)
       (auto simp: OpPlaceBid placeBid_def Let_def split: option.splits)
  with pi show ?thesis by simp
next
  case (OpSettle aid)
  then show ?thesis using pair_invariant_settle[OF inv pi] by simp
next
  case (OpCancel aid)
  have "pair_invariant mate (apply_op mate cfg operation db) = pair_invariant mate db"
    by (rule pair_invariant_cong)
       (auto simp: OpCancel cancelAuction_def update_auction_def split: option.splits)
  with pi show ?thesis by simp
next
  case (OpRecordInterest uid fid)
  have "pair_invariant mate (apply_op mate cfg operation db) = pair_invariant mate db"
    by (rule pair_invariant_cong) (auto simp: OpRecordInterest recordInterest_def)
  with pi show ?thesis by simp
next
  case OpAdminReset
  then show ?thesis
    by (simp add: pair_invariant_def reset_database_def reset_order_def)
next
  case (OpAdminSync reply)
  then show ?thesis using pair_invariant_sync[OF pi] by simp
qed

lemma pair_invariant_run:
  assumes inv: "\<And>x. mate (mate x) = x"
  shows "pair_invariant mate db \<Longrightarrow> pair_invariant mate (run mate cfg ops db)"
proof (induction ops arbitrary: db)
  case Nil
  then show ?case by simp
next
  case (Cons operation ops)
  then show ?case using pair_invariant_apply_op[OF inv] by simp
qed

lemma pair_invariant_fresh: "fresh db \<Longrightarrow> pair_invariant mate db"
  by (simp add: fresh_def pair_invariant_def same_owner_def getOwnership_def list_all_iff)

lemma filter_cong_list_all:
  "list_all (\<lambda>x. P x = Q x) xs \<Longrightarrow> filter P xs = filter Q xs"
  by (induction xs) auto

text \<open>
  C1. In every state reached from a fresh database by the operations of the engine and
  the admin router, with pair-mate resolution an involution, a flag's
  \<^verbatim>\<open>is_pair_complete\<close> is true if and only if both flags of its pair have an owner and
  the two owners are the same user; hence \<^verbatim>\<open>completed_pairs\<close> of the admin statistics is
  the number of flags that satisfy this condition.
\<close>

theorem pair_complete_invariant:
  assumes "\<forall>x. mate (mate x) = x" and "fresh db0" and "db = run mate cfg ops db0"
  shows "(\<forall>f \<in> set (flags db). is_pair_complete f \<longleftrightarrow>
            (\<exists>u. getOwnership db (flag_id f) = Some u
                \<and> getOwnership db (mate (flag_id f)) = Some u))
         \<and> completed_pairs (get_admin_stats db) =
             int (length (filter (\<lambda>f. \<exists>u. getOwnership db (flag_id f) = Some u
                \<and> getOwnership db (mate (flag_id f)) = Some u) (flags db)))"
proof -
  have pi: "pair_invariant mate db"
    using assms pair_invariant_run[of mate db0 cfg ops] pair_invariant_fresh[of db0 mate]
    by simp
  then have a: "list_all (\<lambda>f. is_pair_complete f =
       (\<exists>u. getOwnership db (flag_id f) = Some u
                \<and> getOwnership db (mate (flag_id f)) = Some u)) (flags db)"
    by (simp add: pair_invariant_def same_owner_iff)
  have "filter (\<lambda>f. is_pair_complete f = True) (flags db) =
      filter (\<lambda>f. \<exists>u. getOwnership db (flag_id f) = Some u
                \<and> getOwnership db (mate (flag_id f)) = Some u) (flags db)"
    using filter_cong_list_all[OF a] by simp
  then show ?thesis using a
    by (simp add: get_admin_stats_def count_rows_def list_all_iff)
qed

theorem pair_complete_invariant_witness:
  "(\<forall>x. example_mate (example_mate x) = x) \<and> fresh example_database
   \<and> map is_pair_complete
       (flags (run example_mate example_settings example_ops example_database)) = [True, True]
   \<and> getOwnership (run example_mate example_settings example_ops example_database) 64 = Some 2
   \<and> getOwnership (run example_mate example_settings example_ops example_database) 65 = Some 2
   \<and> completed_pairs
       (get_admin_stats (run example_mate example_settings example_ops example_database)) =
      int (length (filter (\<lambda>f. \<exists>u.
          getOwnership (run example_mate example_settings example_ops example_database)
            (flag_id f) = Some u
          \<and> getOwnership (run example_mate example_settings example_ops example_database)
            (example_mate (flag_id f)) = Some u)
        (flags (run example_mate example_settings example_ops example_database))))
   \<and> completed_pairs
       (get_admin_stats (run example_mate example_settings example_ops example_database)) = 2"
proof -
  have inv: "\<forall>x. example_mate (example_mate x) = x"
    by (simp add: example_mate_def)
  have fr: "fresh example_database"
    by (simp add: fresh_def example_database_def)
  have 1: "map is_pair_complete
       (flags (run example_mate example_settings example_ops example_database)) = [True, True]"
    by code_simp
  have 2: "getOwnership (run example_mate example_settings example_ops example_database) 64 = Some 2"
    by code_simp
  have 3: "getOwnership (run example_mate example_settings example_ops example_database) 65 = Some 2"
    by code_simp
  have 4: "completed_pairs
       (get_admin_stats (run example_mate example_settings example_ops example_database)) = 2"
    by code_simp
  from pair_complete_invariant[OF inv fr refl, of example_settings example_ops] inv fr 1 2 3 4
  show ?thesis by blast
qed

lemma highest_None: "highest bs = None \<longleftrightarrow> bs = []"
  by (induction bs) (auto split: option.splits)

lemma highest_mem: "highest bs = Some b \<Longrightarrow> b \<in> set bs"
  by (induction bs arbitrary: b) (auto split: option.splits if_splits)

lemma highest_max:
  "highest bs = Some b \<Longrightarrow> c \<in> set bs \<Longrightarrow>
   amount c \<le> amount b \<and> (amount c = amount b \<longrightarrow> timestamp b \<le> timestamp c)"
proof (induction bs arbitrary: b c)
  case Nil
  then show ?case by simp
next
  case (Cons x xs)
  show ?case
  proof (cases "highest xs")
    case None
    then have "xs = []" by (simp add: highest_None)
    with Cons.prems show ?thesis by simp
  next
    case (Some h)
    have hx: "b = (if better h x then h else x)"
      using Cons.prems(1) Some by (simp split: if_splits)
    show ?thesis
    proof (cases "c = x")
      case True
      then show ?thesis using hx unfolding better_def
        by (cases "amount x < amount h \<or> amount h = amount x \<and> timestamp h < timestamp x") auto
    next
      case False
      then have "c \<in> set xs" using Cons.prems(2) by simp
      from Cons.IH[OF Some this]
      have 1: "amount c \<le> amount h"
        and 2: "amount c = amount h \<longrightarrow> timestamp h \<le> timestamp c" by simp_all
      show ?thesis
      proof (cases "better h x")
        case True
        then show ?thesis using hx 1 2 by simp
      next
        case False
        then have "amount h \<le> amount x" and "amount h = amount x \<longrightarrow> timestamp x \<le> timestamp h"
          unfolding better_def by linarith+
        then show ?thesis using hx False 1 2 by auto
      qed
    qed
  qed
qed

lemma highestBid_spec:
  "(case highestBid db aid of
      None \<Rightarrow> allBids db aid = []
    | Some b \<Rightarrow> b \<in> set (allBids db aid)
        \<and> (\<forall>c \<in> set (allBids db aid).
              amount c \<le> amount b \<and> (amount c = amount b \<longrightarrow> timestamp b \<le> timestamp c)))"
  using highest_None[of "allBids db aid"] highest_mem[of "allBids db aid"]
    highest_max[of "allBids db aid"]
  by (auto simp: highestBid_def split: option.splits)

lemma placeBid_accepted:
  assumes "placeBid db aid uid amt now = Inr (new_id, db1)"
  shows "\<exists>a. find_auction db aid = Some a \<and> status a = ACTIVE \<and> now < closing_time a
           \<and> threshold db a < amt"
    and "auctions db1 = auctions db"
    and "\<exists>b. bids db1 = bids db @ [b] \<and> bid_auction_id b = aid \<and> amount b = amt
           \<and> timestamp b = now \<and> bidder_id b = uid \<and> bid_id b = new_id"
  using assms
  by (auto simp: placeBid_def Let_def split: option.splits if_splits)

lemma placeBid_too_low:
  "find_auction db aid = Some a \<Longrightarrow> status a = ACTIVE \<Longrightarrow> now < closing_time a \<Longrightarrow>
   amt \<le> threshold db a \<Longrightarrow> placeBid db aid uid amt now = Inl BidTooLow"
  by (simp add: placeBid_def)

lemma place_bids_trace:
  "place_bids db aid reqs = (tr, db') \<Longrightarrow>
   map (fst \<circ> snd) tr = reqs
   \<and> list_all (\<lambda>(s, r, res).
        res = map_sum id fst (placeBid s aid (req_user r) (req_amount r) (req_time r))) tr"
proof (induction reqs arbitrary: db tr db')
  case Nil
  then show ?case by simp
next
  case (Cons r rs)
  show ?case
  proof (cases "placeBid db aid (req_user r) (req_amount r) (req_time r)")
    case (Inl e)
    obtain tr1 db1 where p: "place_bids db aid rs = (tr1, db1)"
      by (cases "place_bids db aid rs")
    with Cons.prems Inl have "tr = (db, r, Inl e) # tr1" by simp
    then show ?thesis using Cons.IH[OF p] Inl by simp
  next
    case (Inr x)
    obtain new_id s1 where x: "x = (new_id, s1)" by (cases x)
    obtain tr1 db1 where p: "place_bids s1 aid rs = (tr1, db1)"
      by (cases "place_bids s1 aid rs")
    with Cons.prems Inr x have "tr = (db, r, Inr new_id) # tr1" by simp
    then show ?thesis using Cons.IH[OF p] Inr x by simp
  qed
qed

lemma highest_append_greater:
  "\<forall>c \<in> set xs. amount c < amount b \<Longrightarrow> highest (xs @ [b]) = Some b"
  by (induction xs) (auto simp: better_def)

lemma find_auction_id: "find_auction db aid = Some a \<Longrightarrow> auction_id a = aid"
  by (auto simp: find_auction_def find_Some_iff)

lemma below_threshold:
  assumes "find_auction db aid = Some a" and "c \<in> set (allBids db aid)"
  shows "amount c \<le> threshold db a"
proof -
  have aid: "auction_id a = aid" using assms(1) by (rule find_auction_id)
  from assms(2) have "highest (allBids db aid) \<noteq> None" by (auto simp: highest_None)
  then obtain h where h: "highest (allBids db aid) = Some h" by blast
  from highest_max[OF h assms(2)] show ?thesis
    using h aid by (simp add: threshold_def highestBid_def)
qed

lemma placeBid_Inr_iff:
  "(\<exists>new_id db1. placeBid db aid uid amt now = Inr (new_id, db1)) \<longleftrightarrow>
   (\<exists>a. find_auction db aid = Some a \<and> status a = ACTIVE \<and> now < closing_time a
        \<and> threshold db a < amt)"
  by (auto simp: placeBid_def Let_def split: option.splits)

lemma placeBid_ledger:
  assumes "placeBid db aid uid amt now = Inr (new_id, db1)"
  shows "allBids db1 aid =
           allBids db aid @ [\<lparr>bid_id = new_id, bid_auction_id = aid, bidder_id = uid,
                               amount = amt, timestamp = now\<rparr>]"
    and "highestBid db1 aid =
           Some \<lparr>bid_id = new_id, bid_auction_id = aid, bidder_id = uid,
                  amount = amt, timestamp = now\<rparr>"
    and "auctions db1 = auctions db"
proof -
  let ?b = "\<lparr>bid_id = new_id, bid_auction_id = aid, bidder_id = uid,
              amount = amt, timestamp = now\<rparr>"
  from assms obtain a where a: "find_auction db aid = Some a" and th: "threshold db a < amt"
    and db1: "db1 = db\<lparr>bids := bids db @ [?b]\<rparr>"
    by (auto simp: placeBid_def Let_def split: option.splits if_splits)
  show l: "allBids db1 aid = allBids db aid @ [?b]"
    by (simp add: db1 allBids_def)
  have "\<forall>c \<in> set (allBids db aid). amount c < amount ?b"
    using below_threshold[OF a] th by fastforce
  from highest_append_greater[OF this] show "highestBid db1 aid = Some ?b"
    by (simp add: highestBid_def l)
  show "auctions db1 = auctions db" by (simp add: db1)
qed

lemma place_bids_ledger:
  "place_bids db aid reqs = (tr, db') \<Longrightarrow>
   allBids db' aid = allBids db aid @ accepted_bids aid tr
   \<and> highestBid db' aid =
       (if accepted_bids aid tr = [] then highestBid db aid
        else Some (last (accepted_bids aid tr)))"
proof (induction reqs arbitrary: db tr db')
  case Nil
  then show ?case by simp
next
  case (Cons r rs)
  show ?case
  proof (cases "placeBid db aid (req_user r) (req_amount r) (req_time r)")
    case (Inl e)
    obtain tr1 db1 where p: "place_bids db aid rs = (tr1, db1)"
      by (cases "place_bids db aid rs")
    with Cons.prems Inl have "tr = (db, r, Inl e) # tr1" "db' = db1" by simp_all
    then show ?thesis using Cons.IH[OF p] by simp
  next
    case (Inr x)
    obtain new_id s1 where x: "x = (new_id, s1)" by (cases x)
    obtain tr1 db1 where p: "place_bids s1 aid rs = (tr1, db1)"
      by (cases "place_bids s1 aid rs")
    with Cons.prems Inr x have tr: "tr = (db, r, Inr new_id) # tr1" and d: "db' = db1"
      by simp_all
    from Inr x have pb: "placeBid db aid (req_user r) (req_amount r) (req_time r) = Inr (new_id, s1)"
      by simp
    show ?thesis
      using Cons.IH[OF p] placeBid_ledger(1,2)[OF pb] tr d by simp
  qed
qed

lemma place_bids_append:
  "place_bids db aid (xs @ ys) =
     (let (t1, d1) = place_bids db aid xs; (t2, d2) = place_bids d1 aid ys in (t1 @ t2, d2))"
  by (induction xs arbitrary: db) (simp_all add: Let_def case_prod_unfold split: sum.splits)

lemma place_bids_length: "length (fst (place_bids db aid reqs)) = length reqs"
  by (induction reqs arbitrary: db) (simp_all add: Let_def case_prod_unfold split: sum.splits)

lemma place_bids_hd_state:
  "place_bids db aid (r # rs) = (t, d) \<Longrightarrow> fst (hd t) = db \<and> t \<noteq> []"
  by (auto simp: Let_def split: sum.splits prod.splits)

lemma place_bids_states:
  assumes "place_bids db aid reqs = (tr, db')" and "i < length tr"
  shows "fst (tr ! i) = snd (place_bids db aid (take i reqs))"
proof -
  have len: "length tr = length reqs"
    using place_bids_length[of db aid reqs] assms(1) by simp
  obtain t1 d1 where p1: "place_bids db aid (take i reqs) = (t1, d1)"
    by (cases "place_bids db aid (take i reqs)")
  obtain t2 d2 where p2: "place_bids d1 aid (drop i reqs) = (t2, d2)"
    by (cases "place_bids d1 aid (drop i reqs)")
  have "place_bids db aid reqs = (t1 @ t2, d2)"
    using place_bids_append[of db aid "take i reqs" "drop i reqs"] p1 p2 by simp
  then have tr: "tr = t1 @ t2" using assms(1) by simp
  have l1: "length t1 = i"
    using place_bids_length[of db aid "take i reqs"] p1 assms(2) len by simp
  from assms(2) len obtain r rs where "drop i reqs = r # rs"
    by (cases "drop i reqs") auto
  with p2 have "fst (hd t2) = d1" "t2 \<noteq> []"
    using place_bids_hd_state[of d1 aid r rs t2 d2] by simp_all
  then have "fst (tr ! i) = d1"
    using tr l1 by (simp add: nth_append hd_conv_nth)
  then show ?thesis using p1 by simp
qed

text \<open>
  C6 (amended). For every finite sequence of bids placed on one auction, each request is
  judged on the database its predecessors left, and:
  \<^item> a bid is accepted exactly when the auction is \<^verbatim>\<open>ACTIVE\<close>, the bid comes before the
    closing time and its amount strictly exceeds the threshold of that database (the
    highest accepted bid, or the reserve price when no bid existed yet);
  \<^item> a non-improving bid placed while the auction is \<^verbatim>\<open>ACTIVE\<close> and before its closing
    time fails with \<^verbatim>\<open>BidTooLow\<close>;
  \<^item> the ledger afterwards is the ledger before followed by the accepted bids, in order;
  \<^item> \<^verbatim>\<open>highestBid\<close> afterwards is the last accepted bid (the former highest bid if none
    was accepted), and it is a bid of the ledger with the maximum amount and, among the
    bids of that amount, the earliest timestamp.
\<close>

theorem bid_sequence:
  assumes "place_bids db aid reqs = (tr, db')"
  shows "map (fst \<circ> snd) tr = reqs
       \<and> (\<forall>i < length tr. fst (tr ! i) = snd (place_bids db aid (take i reqs)))
       \<and> (\<forall>(s, r, res) \<in> set tr.
            ((\<exists>new_id. res = Inr new_id) \<longleftrightarrow>
               (\<exists>a. find_auction s aid = Some a \<and> status a = ACTIVE
                    \<and> req_time r < closing_time a \<and> threshold s a < req_amount r))
          \<and> (\<forall>a. find_auction s aid = Some a \<and> status a = ACTIVE
                  \<and> req_time r < closing_time a \<and> req_amount r \<le> threshold s a
                \<longrightarrow> res = Inl BidTooLow))
       \<and> allBids db' aid = allBids db aid @ accepted_bids aid tr
       \<and> highestBid db' aid =
           (if accepted_bids aid tr = [] then highestBid db aid
            else Some (last (accepted_bids aid tr)))
       \<and> (case highestBid db' aid of
            None \<Rightarrow> allBids db' aid = []
          | Some b \<Rightarrow> b \<in> set (allBids db' aid)
              \<and> (\<forall>c \<in> set (allBids db' aid).
                    amount c \<le> amount b
                    \<and> (amount c = amount b \<longrightarrow> timestamp b \<le> timestamp c)))"
proof -
  have tr: "map (fst \<circ> snd) tr = reqs"
    and steps: "list_all (\<lambda>(s, r, res).
        res = map_sum id fst (placeBid s aid (req_user r) (req_amount r) (req_time r))) tr"
    using place_bids_trace[OF assms] by simp_all
  have states: "\<forall>i < length tr. fst (tr ! i) = snd (place_bids db aid (take i reqs))"
    using place_bids_states[OF assms] by blast
  have step: "((\<exists>new_id. res = Inr new_id) \<longleftrightarrow>
               (\<exists>a. find_auction s aid = Some a \<and> status a = ACTIVE
                    \<and> req_time r < closing_time a \<and> threshold s a < req_amount r))
          \<and> (\<forall>a. find_auction s aid = Some a \<and> status a = ACTIVE
                  \<and> req_time r < closing_time a \<and> req_amount r \<le> threshold s a
                \<longrightarrow> res = Inl BidTooLow)"
    if "(s, r, res) \<in> set tr" for s r res
  proof -
    have res: "res = map_sum id fst (placeBid s aid (req_user r) (req_amount r) (req_time r))"
      using steps that by (auto simp: list_all_iff)
    have "(\<exists>new_id. res = Inr new_id) \<longleftrightarrow>
        (\<exists>new_id db1. placeBid s aid (req_user r) (req_amount r) (req_time r) = Inr (new_id, db1))"
      unfolding res
      by (cases "placeBid s aid (req_user r) (req_amount r) (req_time r)") auto
    then have 1: "(\<exists>new_id. res = Inr new_id) \<longleftrightarrow>
               (\<exists>a. find_auction s aid = Some a \<and> status a = ACTIVE
                    \<and> req_time r < closing_time a \<and> threshold s a < req_amount r)"
      using placeBid_Inr_iff[of s aid "req_user r" "req_amount r" "req_time r"] by simp
    have 2: "\<forall>a. find_auction s aid = Some a \<and> status a = ACTIVE
                  \<and> req_time r < closing_time a \<and> req_amount r \<le> threshold s a
                \<longrightarrow> res = Inl BidTooLow"
      using res placeBid_too_low[of s aid _ "req_time r" "req_amount r" "req_user r"] by simp
    from 1 2 show ?thesis by blast
  qed
  have ledger: "allBids db' aid = allBids db aid @ accepted_bids aid tr"
    and hb: "highestBid db' aid =
           (if accepted_bids aid tr = [] then highestBid db aid
            else Some (last (accepted_bids aid tr)))"
    using place_bids_ledger[OF assms] by simp_all
  from tr states step ledger hb highestBid_spec[of db' aid] show ?thesis
    by blast
qed

theorem bid_sequence_witness:
  "map (snd \<circ> snd) (fst (place_bids example_database 1 example_requests)) =
     [Inl BidTooLow, Inr 2, Inl BidTooLow, Inl AuctionClosed]
   \<and> map (fst \<circ> snd) (fst (place_bids example_database 1 example_requests)) = example_requests
   \<and> allBids (snd (place_bids example_database 1 example_requests)) 1 =
       allBids example_database 1
       @ [\<lparr>bid_id = 2, bid_auction_id = 1, bidder_id = 1, amount = 20, timestamp = 20\<rparr>]
   \<and> highestBid (snd (place_bids example_database 1 example_requests)) 1 =
       Some \<lparr>bid_id = 2, bid_auction_id = 1, bidder_id = 1, amount = 20, timestamp = 20\<rparr>"
proof -
  have 1: "map (snd \<circ> snd) (fst (place_bids example_database 1 example_requests)) =
     [Inl BidTooLow, Inr 2, Inl BidTooLow, Inl AuctionClosed]"
    by code_simp
  have 2: "accepted_bids 1 (fst (place_bids example_database 1 example_requests)) =
       [\<lparr>bid_id = 2, bid_auction_id = 1, bidder_id = 1, amount = 20, timestamp = 20\<rparr>]"
    by code_simp
  from bid_sequence[of example_database 1 example_requests
      "fst (place_bids example_database 1 example_requests)"
      "snd (place_bids example_database 1 example_requests)"] 1 2
  show ?thesis by simp
qed

text \<open>
  As stated, C6 asks that every non-improving bid fail with \<^verbatim>\<open>BidTooLow\<close>. On the example
  auction (highest bid 15, closing time 100) a bid of 5 at time 100 is non-improving and
  fails with \<^verbatim>\<open>AuctionClosed\<close>; after the auction has been cancelled, a bid of 5 at time 50
  is non-improving and fails with \<^verbatim>\<open>AuctionNotActive\<close>.
\<close>

theorem bid_sequence_counterexample:
  "find_auction example_database 1 = Some example_auction
   \<and> \<not> threshold example_database example_auction < 5
   \<and> fst (place_bids example_database 1 [\<lparr>req_user = 2, req_amount = 5, req_time = 100\<rparr>]) =
       [(example_database, \<lparr>req_user = 2, req_amount = 5, req_time = 100\<rparr>, Inl AuctionClosed)]
   \<and> placeBid example_database 1 2 5 100 \<noteq> Inl BidTooLow
   \<and> cancelAuction example_database 1 = Inr example_cancelled_database
   \<and> find_auction example_cancelled_database 1 = Some (example_auction\<lparr>status := CANCELLED\<rparr>)
   \<and> \<not> threshold example_cancelled_database (example_auction\<lparr>status := CANCELLED\<rparr>) < 5
   \<and> fst (place_bids example_cancelled_database 1
            [\<lparr>req_user = 2, req_amount = 5, req_time = 50\<rparr>]) =
       [(example_cancelled_database, \<lparr>req_user = 2, req_amount = 5, req_time = 50\<rparr>,
         Inl AuctionNotActive)]
   \<and> placeBid example_cancelled_database 1 2 5 50 \<noteq> Inl BidTooLow"
  by (simp add: placeBid_def cancelAuction_def update_auction_def find_auction_def
      threshold_def highestBid_def allBids_def better_def example_cancelled_database_def
      example_database_def example_auction_def)

text \<open>
  C7. For every auction and every bid whose timestamp is at or after the auction's
  closing time, \<^verbatim>\<open>placeBid\<close> rejects the bid with \<^verbatim>\<open>AuctionClosed\<close>, whatever the amount
  (and whatever the auction's state and ledger).
\<close>

theorem late_bid_rejected:
  "find_auction db aid = Some a \<Longrightarrow> closing_time a \<le> now \<Longrightarrow>
   placeBid db aid uid amt now = Inl AuctionClosed"
  by (simp add: placeBid_def)

theorem late_bid_rejected_witness:
  "find_auction example_database 1 = Some example_auction
   \<and> closing_time example_auction \<le> 100
   \<and> placeBid example_database 1 2 1000 100 = Inl AuctionClosed"
  using late_bid_rejected[of example_database 1 example_auction 100 2 1000]
  by (simp add: find_auction_def example_database_def example_auction_def)

lemma find_auction_cong: "auctions db' = auctions db \<Longrightarrow> find_auction db' aid = find_auction db aid"
  by (simp add: find_auction_def)

lemma settle_settled:
  "find_auction db aid = Some a \<Longrightarrow> status a = SETTLED \<Longrightarrow>
   settle mate db aid = (Inr (winner a), db)"
  by (simp add: settle_def)

lemma settle_twice:
  assumes "settle mate db aid = (Inr w, db')"
  shows "settle mate db' aid = (Inr w, db')"
proof (cases "find_auction db aid")
  case None
  with assms show ?thesis by (simp add: settle_def)
next
  case (Some a)
  show ?thesis
  proof (cases "status a = SETTLED")
    case True
    with assms Some show ?thesis by (simp add: settle_def)
  next
    case ns: False
    show ?thesis
    proof (cases "status a = CLOSING")
      case False
      with assms Some ns show ?thesis by (simp add: settle_def)
    next
      case True
      show ?thesis
      proof (cases "highestBid db aid")
        case None
        let ?upd = "\<lambda>a. a\<lparr>status := SETTLED, winner := None\<rparr>"
        from assms \<open>find_auction db aid = Some a\<close> True None
        have w: "w = None" and db': "db' = update_auction aid ?upd db"
          by (auto simp: settle_def)
        have "find_auction db' aid = Some (?upd a)"
          unfolding db' using find_auction_update[of ?upd aid db aid] \<open>find_auction db aid = Some a\<close> by simp
        then show ?thesis using w settle_settled[of db' aid "?upd a" mate] by simp
      next
        case (Some b)
        let ?upd = "\<lambda>a. a\<lparr>status := SETTLED, winner := Some (bidder_id b)\<rparr>"
        let ?db2 = "recompute mate (write_ownership db (auction_flag_id a) (bidder_id b)) (auction_flag_id a)"
        from assms \<open>find_auction db aid = Some a\<close> True Some
        have w: "w = Some (bidder_id b)" and db': "db' = update_auction aid ?upd ?db2"
          by (auto simp: settle_def Let_def)
        have "find_auction ?db2 aid = find_auction db aid"
          by (rule find_auction_cong)
             (simp add: recompute_def set_pair_complete_def write_ownership_def)
        then have "find_auction db' aid = Some (?upd a)"
          unfolding db' using find_auction_update[of ?upd aid ?db2 aid] \<open>find_auction db aid = Some a\<close>
          by simp
        then show ?thesis using w settle_settled[of db' aid "?upd a" mate] by simp
      qed
    qed
  qed
qed

text \<open>
  C4. \<^verbatim>\<open>settle\<close> is idempotent: on an auction that is already \<^verbatim>\<open>SETTLED\<close> it changes
  nothing and returns the recorded winner; a second call after a successful one returns
  the same winner and leaves the database, and so the ownership records, as the first
  call left them.
\<close>

theorem settle_idempotent:
  "(find_auction db aid = Some a \<and> status a = SETTLED \<longrightarrow>
      settle mate db aid = (Inr (winner a), db))
   \<and> (settle mate db aid = (Inr w, db') \<longrightarrow>
      settle mate db' aid = (Inr w, db')
      \<and> flag_ownerships (snd (settle mate db' aid)) = flag_ownerships db')"
  using settle_settled[of db aid a mate] settle_twice[of mate db aid w db'] by simp

theorem settle_idempotent_witness:
  "fst (settle example_mate example_closing_database 1) = Inr (Some 2)
   \<and> settle example_mate (snd (settle example_mate example_closing_database 1)) 1 =
       (Inr (Some 2), snd (settle example_mate example_closing_database 1))
   \<and> length (flag_ownerships
       (snd (settle example_mate (snd (settle example_mate example_closing_database 1)) 1))) = 1"
proof -
  have 1: "fst (settle example_mate example_closing_database 1) = Inr (Some 2)"
    by code_simp
  have 2: "length (flag_ownerships (snd (settle example_mate example_closing_database 1))) = 1"
    by code_simp
  have "settle example_mate example_closing_database 1 =
      (Inr (Some 2), snd (settle example_mate example_closing_database 1))"
    using 1 by (simp add: prod_eq_iff)
  with settle_idempotent[of example_closing_database 1 example_auction example_mate "Some 2"
      "snd (settle example_mate example_closing_database 1)"] 1 2
  show ?thesis by simp
qed

section \<open>Properties of the IPFS synchronisation\<close>

text \<open>
  What the loop does on every input: a name that matches has the shape of the pattern, up
  to one final newline; leading zeros of the number are ignored; an entry of the two maps
  comes from a pin whose name matches and whose number is the key; a flag is counted as
  updated exactly when it changes, and a flag with no pin, or with the pinned hashes
  already stored, is left as it is.
\<close>

lemma decimal_value_zero: "decimal_value 48 = Some 0"
  by (simp add: decimal_value_def decimal_digit_runs_def)

lemma py_int_leading_zeros:
  assumes "length (replicate k 48 @ ds) \<le> int_max_str_digits"
  shows "py_int (replicate k 48 @ ds) = py_int ds"
proof -
  have "foldl (\<lambda>acc c. 10 * acc + (case decimal_value c of None \<Rightarrow> 0 | Some v \<Rightarrow> v))
          0 (replicate k 48) = 0"
    by (induction k) (simp_all add: decimal_value_zero)
  with assms show ?thesis by (simp add: py_int_def)
qed

lemma py_int_too_long: "int_max_str_digits < length ds \<Longrightarrow> py_int ds = Inl ValueError"
  by (simp add: py_int_def)

lemma update_image_eq:
  "(f\<lparr>image_ipfs_hash := x\<rparr> = (f::flag)) \<longleftrightarrow> image_ipfs_hash f = x"
  by (cases f) auto

lemma update_metadata_eq:
  "(f\<lparr>metadata_ipfs_hash := x\<rparr> = (f::flag)) \<longleftrightarrow> metadata_ipfs_hash f = x"
  by (cases f) auto

lemma update_both_eq:
  "(f\<lparr>image_ipfs_hash := x, metadata_ipfs_hash := y\<rparr> = (f::flag)) \<longleftrightarrow>
     image_ipfs_hash f = x \<and> metadata_ipfs_hash f = y"
  by (cases f) auto

lemma sync_flag_updated:
  "snd (sync_flag im mm f) \<longleftrightarrow> fst (sync_flag im mm f) \<noteq> f"
  by (auto simp: sync_flag_def Let_def update_image_eq update_metadata_eq update_both_eq
      split: option.splits)

lemma sync_flag_unchanged:
  assumes "map_of im (flag_id f) = None \<or> map_of im (flag_id f) = image_ipfs_hash f"
    and "map_of mm (flag_id f) = None \<or> map_of mm (flag_id f) = metadata_ipfs_hash f"
  shows "sync_flag im mm f = (f, False)"
  using assms by (auto simp: sync_flag_def Let_def split: option.splits)

lemma sync_flags_count:
  "snd (sync_flags im mm fs n) =
     n + int (length (filter (\<lambda>f. fst (sync_flag im mm f) \<noteq> f) fs))"
proof (induction fs arbitrary: n)
  case Nil
  then show ?case by simp
next
  case (Cons f fs)
  show ?case
    using Cons.IH[of "if snd (sync_flag im mm f) then n + 1 else n"]
      sync_flag_updated[of im mm f]
    by (simp add: Let_def case_prod_unfold)
qed


lemma match_image_Some:
  assumes "match_image name = Some ds"
  shows "\<exists>cc lows. length cc = 3 \<and> list_all is_upper cc \<and> lows \<noteq> [] \<and> list_all is_lower lows
           \<and> ds \<noteq> [] \<and> list_all is_digit ds
           \<and> (name = cc @ ustr ''_'' @ lows @ ustr ''_'' @ ds @ ustr ''.png''
              \<or> name = cc @ ustr ''_'' @ lows @ ustr ''_'' @ ds @ ustr ''.png'' @ [10])"
proof -
  let ?cc = "take 3 name"
  let ?u = "of_char (CHR ''_'') :: int"
  from assms have cc: "length ?cc = 3" "list_all is_upper ?cc"
    by (auto simp: match_image_def Let_def split: if_splits)
  from assms cc obtain r2 where r1: "drop 3 name = ?u # r2"
    by (auto simp: match_image_def Let_def split: if_splits list.splits)
  let ?lows = "takeWhile is_lower r2"
  from assms cc r1 have lows: "?lows \<noteq> []"
    by (auto simp: match_image_def Let_def split: if_splits list.splits)
  from assms cc r1 lows obtain r4 where r3: "dropWhile is_lower r2 = ?u # r4"
    by (auto simp: match_image_def Let_def split: if_splits list.splits)
  from assms cc r1 lows r3 have ds: "ds = takeWhile is_digit r4" "ds \<noteq> []"
    and e: "at_end (ustr ''.png'') (dropWhile is_digit r4)"
    by (auto simp: match_image_def Let_def split: if_splits list.splits)
  have "name = ?cc @ drop 3 name" by simp
  also have "drop 3 name = ?u # ?lows @ dropWhile is_lower r2"
    using r1 by simp
  also have "dropWhile is_lower r2 = ?u # ds @ dropWhile is_digit r4"
    using r3 ds(1) by simp
  finally have n: "name = ?cc @ ustr ''_'' @ ?lows @ ustr ''_'' @ ds @ dropWhile is_digit r4"
    by (simp add: ustr_def)
  have "list_all is_lower ?lows" "list_all is_digit ds"
    using ds(1) by (auto simp: list_all_iff dest: set_takeWhileD)
  with cc lows ds(2) n e show ?thesis
    unfolding at_end_def by metis
qed

lemma match_metadata_Some:
  assumes "match_metadata name = Some ds"
  shows "ds \<noteq> [] \<and> list_all is_digit ds
           \<and> (name = ustr ''flag_'' @ ds @ ustr ''_metadata.json''
              \<or> name = ustr ''flag_'' @ ds @ ustr ''_metadata.json'' @ [10])"
proof -
  let ?r1 = "drop 5 name"
  from assms have p: "take 5 name = ustr ''flag_''"
    and ds: "ds = takeWhile is_digit ?r1" "ds \<noteq> []"
    and e: "at_end (ustr ''_metadata.json'') (dropWhile is_digit ?r1)"
    by (auto simp: match_metadata_def Let_def split: if_splits)
  have "name = take 5 name @ ?r1" by simp
  also have "?r1 = ds @ dropWhile is_digit ?r1" using ds(1) by simp
  finally have n: "name = ustr ''flag_'' @ ds @ dropWhile is_digit ?r1" using p by simp
  have "list_all is_digit ds"
    using ds(1) by (auto simp: list_all_iff dest: set_takeWhileD)
  with ds(2) n e show ?thesis unfolding at_end_def by metis
qed

lemma build_maps_sources:
  assumes "build_maps rows im mm = Inr (im', mm')"
  shows "(map_of im' k = Some h \<longrightarrow> map_of im k = Some h
            \<or> (\<exists>p \<in> set rows. \<exists>name g. pin_name p = Some name \<and> ipfs_pin_hash p = Some h
                  \<and> h \<noteq> [] \<and> match_image name = Some g \<and> py_int g = Inr k))
       \<and> (map_of mm' k = Some h \<longrightarrow> map_of mm k = Some h
            \<or> (\<exists>p \<in> set rows. \<exists>name g. pin_name p = Some name \<and> ipfs_pin_hash p = Some h
                  \<and> h \<noteq> [] \<and> match_metadata name = Some g \<and> py_int g = Inr k))"
  using assms
proof (induction rows arbitrary: im mm)
  case Nil
  then show ?case by simp
next
  case (Cons p rows)
  show ?case
  proof (cases "pin_name p")
    case None
    with Cons.prems have "build_maps rows im mm = Inr (im', mm')" by simp
    from Cons.IH[OF this] show ?thesis by auto
  next
    case (Some name)
    show ?thesis
    proof (cases "ipfs_pin_hash p")
      case None
      with Cons.prems Some have "build_maps rows im mm = Inr (im', mm')" by simp
      from Cons.IH[OF this] show ?thesis by auto
    next
      case hs: (Some ipfs_hash)
      show ?thesis
      proof (cases "name = [] \<or> ipfs_hash = []")
        case True
        with Cons.prems Some hs have "build_maps rows im mm = Inr (im', mm')" by auto
        from Cons.IH[OF this] show ?thesis by auto
      next
        case ne: False
        show ?thesis
        proof (cases "match_image name")
          case (Some g)
          with Cons.prems \<open>pin_name p = Some name\<close> hs ne
          obtain fid where fid: "py_int g = Inr fid"
            and "build_maps rows (AList.update fid ipfs_hash im) mm = Inr (im', mm')"
            by (cases "py_int g") auto
          from Cons.IH[OF this(2)] show ?thesis
            using \<open>pin_name p = Some name\<close> hs ne Some fid
            by (auto simp: update_conv' split: if_splits)
        next
          case None
          show ?thesis
          proof (cases "match_metadata name")
            case (Some g)
            with Cons.prems \<open>pin_name p = Some name\<close> hs ne None
            obtain fid where fid: "py_int g = Inr fid"
              and "build_maps rows im (AList.update fid ipfs_hash mm) = Inr (im', mm')"
              by (cases "py_int g") auto
            from Cons.IH[OF this(2)] show ?thesis
              using \<open>pin_name p = Some name\<close> hs ne Some fid
              by (auto simp: update_conv' split: if_splits)
          next
            case nm: None
            with Cons.prems \<open>pin_name p = Some name\<close> hs ne None
            have "build_maps rows im mm = Inr (im', mm')" by simp
            from Cons.IH[OF this] show ?thesis by auto
          qed
        qed
      qed
    qed
  qed
qed

lemma sync_image_source:
  assumes "build_maps rows [] [] = Inr (im, mm)"
    and "image_ipfs_hash (fst (sync_flag im mm f)) \<noteq> image_ipfs_hash f"
  shows "\<exists>p \<in> set rows. \<exists>name g. pin_name p = Some name
           \<and> ipfs_pin_hash p = image_ipfs_hash (fst (sync_flag im mm f))
           \<and> match_image name = Some g \<and> py_int g = Inr (flag_id f)"
proof -
  from assms(2) obtain h where h: "map_of im (flag_id f) = Some h"
    and new: "image_ipfs_hash (fst (sync_flag im mm f)) = Some h"
    by (auto simp: sync_flag_def Let_def split: option.splits if_splits)
  from build_maps_sources[OF assms(1), of "flag_id f" h] h new show ?thesis
    by auto
qed

lemma sync_metadata_source:
  assumes "build_maps rows [] [] = Inr (im, mm)"
    and "metadata_ipfs_hash (fst (sync_flag im mm f)) \<noteq> metadata_ipfs_hash f"
  shows "\<exists>p \<in> set rows. \<exists>name g. pin_name p = Some name
           \<and> ipfs_pin_hash p = metadata_ipfs_hash (fst (sync_flag im mm f))
           \<and> match_metadata name = Some g \<and> py_int g = Inr (flag_id f)"
proof -
  from assms(2) obtain h where h: "map_of mm (flag_id f) = Some h"
    and new: "metadata_ipfs_hash (fst (sync_flag im mm f)) = Some h"
    by (auto simp: sync_flag_def Let_def split: option.splits if_splits)
  from build_maps_sources[OF assms(1), of "flag_id f" h] h new show ?thesis
    by auto
qed

text \<open>Digits of other scripts match and convert as ASCII digits do; a group of more than
  4300 digits makes \<^verbatim>\<open>int\<close> raise, and the request ends with status 500 and no change.\<close>

lemma match_image_arabic_indic:
  "match_image (ustr ''ITA_siena_'' @ [1632, 1638, 1636] @ ustr ''.png'') =
     Some [1632, 1638, 1636]
   \<and> py_int [1632, 1638, 1636] = Inr 64"
  by code_simp

lemma takeWhile_replicate_append:
  "P x \<Longrightarrow> takeWhile P (replicate k x @ ys) = replicate k x @ takeWhile P ys"
  by (induction k) simp_all

lemma dropWhile_replicate_append:
  "P x \<Longrightarrow> dropWhile P (replicate k x @ ys) = dropWhile P ys"
  by (induction k) simp_all

lemma match_metadata_zeros:
  assumes "0 < k"
  shows "match_metadata (ustr ''flag_'' @ replicate k 48 @ ustr ''_metadata.json'') =
           Some (replicate k 48)"
proof -
  have d: "is_digit 48" and u: "\<not> is_digit 95"
    by (simp_all add: is_digit_def decimal_value_def decimal_digit_runs_def)
  have tw: "takeWhile is_digit (replicate k 48 @ ustr ''_metadata.json'') = replicate k 48"
    using d u by (simp add: takeWhile_replicate_append ustr_def)
  have dw: "dropWhile is_digit (replicate k 48 @ ustr ''_metadata.json'') = ustr ''_metadata.json''"
    using d u by (simp add: dropWhile_replicate_append ustr_def)
  show ?thesis
    using assms tw dw by (simp add: match_metadata_def ustr_def at_end_def)
qed

lemma sync_int_raises:
  assumes "pinata_jwt cfg \<noteq> None" and "pinata_jwt cfg \<noteq> Some []"
    and "reply_status_code reply = 200"
    and "reply_rows reply =
      [\<lparr>pin_name = Some (ustr ''flag_'' @ replicate 4301 48 @ ustr ''_metadata.json''),
        ipfs_pin_hash = Some ''QmNew''\<rparr>]"
  shows "sync_ipfs_from_pinata cfg reply db =
     (Inl (HTTPException HTTP_500_INTERNAL_SERVER_ERROR ''Internal Server Error''), db)"
proof -
  let ?name = "ustr ''flag_'' @ replicate 4301 48 @ ustr ''_metadata.json''"
  have i: "match_image ?name = None"
    by (simp add: match_image_def ustr_def is_upper_def)
  have m: "match_metadata ?name = Some (replicate 4301 48)"
    by (rule match_metadata_zeros) simp
  have p: "py_int (replicate 4301 48) = Inl ValueError"
    by (simp add: py_int_def int_max_str_digits_def)
  have n: "?name \<noteq> []" by (simp add: ustr_def)
  have "build_maps (reply_rows reply) [] [] = Inl ValueError"
    unfolding assms(4) using i m p n by simp
  then show ?thesis using assms(1-3) by (simp add: sync_ipfs_from_pinata_def)
qed

subsection \<open>A name that ends with a newline\<close>

text \<open>
  C9. The docstring of \<^verbatim>\<open>sync_ipfs_from_pinata\<close> gives the pattern of an image name as
  \<^verbatim>\<open>{COUNTRY_CODE}_{municipality}_{flag_number}.png\<close>. Python's \<^verbatim>\<open>$\<close> also matches before a
  final newline: a pin whose name is \<^verbatim>\<open>ITA_siena_064.png\<close> followed by a newline does not
  end with \<^verbatim>\<open>.png\<close>, yet it matches, and the image hash of flag 64 is overwritten from it.
\<close>

theorem sync_accepts_trailing_newline:
  "ustr ''ITA_siena_064.png'' @ [10] \<noteq> ustr ''ITA_siena_064.png''
   \<and> match_image (ustr ''ITA_siena_064.png'' @ [10]) = Some (ustr ''064'')
   \<and> py_int (ustr ''064'') = Inr 64
   \<and> map image_ipfs_hash (flags example_database) = [None, Some ''QmOld'']
   \<and> map image_ipfs_hash
        (flags (snd (sync_ipfs_from_pinata example_settings example_pinata_reply
                       example_database))) = [Some ''QmNew'', Some ''QmOld'']
   \<and> fst (sync_ipfs_from_pinata example_settings example_pinata_reply example_database) =
       Inr (MessageResponse
         ''Synced IPFS hashes. Updated 1 flags. Found 1 images and 0 metadata files in Pinata.'')"
proof -
  have 0: "ustr ''ITA_siena_064.png'' @ [10] \<noteq> ustr ''ITA_siena_064.png''"
    by simp
  have 1: "match_image (ustr ''ITA_siena_064.png'' @ [10]) = Some (ustr ''064'')"
    by code_simp
  have 2: "map image_ipfs_hash (flags example_database) = [None, Some ''QmOld'']"
    by (simp add: example_database_def)
  have 3: "map image_ipfs_hash
        (flags (snd (sync_ipfs_from_pinata example_settings example_pinata_reply
                       example_database))) = [Some ''QmNew'', Some ''QmOld'']"
    by code_simp
  have 4: "fst (sync_ipfs_from_pinata example_settings example_pinata_reply example_database) =
       Inr (MessageResponse
         ''Synced IPFS hashes. Updated 1 flags. Found 1 images and 0 metadata files in Pinata.'')"
    by code_simp
  have 5: "py_int (ustr ''064'') = Inr 64"
    by code_simp
  from 0 1 2 3 4 5 show ?thesis by blast
qed

end
